theory Spec2Isabelle
  imports Complex_Main "HOL-Library.Log_Nat"
begin

section \<open>Numbers\<close>

text \<open>
  The order book module (\<^verbatim>\<open>solanaOrderBook.js\<close>) computes with JavaScript numbers,
  which are IEEE 754 doubles. A finite number is held as the rational it denotes;
  \<open>jsnum\<close> adds the two infinities and \<^verbatim>\<open>NaN\<close>. The sign of a zero is not modelled:
  \<open>Fin 0\<close> stands for a zero of either sign, and a divisor is always a number the
  module was given, never a zero it computed.

  The snapshot of a book and the statistics of a market are single formulas; they are
  stated over the values as the formulas read, with the division by zero of IEEE
  (\<open>js_div\<close>). The walk of \<^verbatim>\<open>estimateMarketOrderPrice\<close> branches on the numbers it
  computes, so each of its operations is the operation on doubles, rounded to the
  nearest double with ties to even (section on doubles below).
\<close>

datatype jsnum = Fin rat | PosInf | NegInf | NaN

definition js_div :: "rat \<Rightarrow> rat \<Rightarrow> jsnum" where
  "js_div x y =
     (if y \<noteq> 0 then Fin (x / y)
      else if x = 0 then NaN
      else if 0 < x then PosInf else NegInf)"

text \<open>Multiplication of a number by a finite constant, as in \<^verbatim>\<open>q * 100\<close>.\<close>

definition js_times :: "jsnum \<Rightarrow> rat \<Rightarrow> jsnum" where
  "js_times x c =
     (case x of
        Fin q \<Rightarrow> Fin (q * c)
      | NaN \<Rightarrow> NaN
      | PosInf \<Rightarrow> (if c = 0 then NaN else if 0 < c then PosInf else NegInf)
      | NegInf \<Rightarrow> (if c = 0 then NaN else if 0 < c then NegInf else PosInf))"

section \<open>Doubles\<close>

text \<open>
  \<open>ilog2 x\<close> is the binary exponent of \<open>x\<close>: \<open>2 powi ilog2 x \<le> \<bar>x\<bar> < 2 powi (ilog2 x + 1)\<close>.
  A double has 53 significant bits, and its exponent is at least -1022 (below that the
  spacing stays that of the subnormal numbers), so around \<open>x\<close> the doubles are the
  multiples of \<open>quantum x\<close>. \<open>nearest x\<close> is the multiple nearest to \<open>x\<close>, the even one
  on a tie, and \<open>double_of\<close> is the result of an operation whose exact value is \<open>x\<close>:
  a value that rounds to 2^1024 or beyond overflows to an infinity.
\<close>

definition ilog2 :: "rat \<Rightarrow> int" where
  "ilog2 x =
     (case quotient_of \<bar>x\<bar> of
        (p, q) \<Rightarrow>
          let d = int (floorlog 2 (nat p)) - int (floorlog 2 (nat q))
          in if 2 powi d \<le> \<bar>x\<bar> then d else d - 1)"

definition quantum :: "rat \<Rightarrow> rat" where
  "quantum x = 2 powi (max (ilog2 x) (- 1022) - 52)"

definition roundHalfEven :: "rat \<Rightarrow> int" where
  "roundHalfEven n =
     (let f = \<lfloor>n\<rfloor>; d = n - of_int f
      in if d < 1 / 2 then f
         else if 1 / 2 < d then f + 1
         else if even f then f else f + 1)"

definition nearest :: "rat \<Rightarrow> rat" where
  "nearest x = (if x = 0 then 0 else of_int (roundHalfEven (x / quantum x)) * quantum x)"

definition double_of :: "rat \<Rightarrow> jsnum" where
  "double_of x =
     (let y = nearest x
      in if 2 ^ 1024 \<le> y then PosInf
         else if y \<le> - (2 ^ 1024) then NegInf
         else Fin y)"

text \<open>A rational is a double when rounding leaves it as it is.\<close>

definition isDouble :: "rat \<Rightarrow> bool" where
  "isDouble x = (double_of x = Fin x)"

text \<open>
  The operations of the walk: \<^verbatim>\<open>+\<close>, \<^verbatim>\<open>-\<close>, \<^verbatim>\<open>*\<close>, \<^verbatim>\<open>/\<close>, \<^verbatim>\<open>Math.min\<close>, \<^verbatim>\<open><=\<close> and \<^verbatim>\<open>>\<close>,
  with the rules of IEEE 754 for the infinities and \<^verbatim>\<open>NaN\<close>.
\<close>

fun dneg :: "jsnum \<Rightarrow> jsnum" where
  "dneg (Fin x) = Fin (- x)"
| "dneg PosInf = NegInf"
| "dneg NegInf = PosInf"
| "dneg NaN = NaN"

fun dadd :: "jsnum \<Rightarrow> jsnum \<Rightarrow> jsnum" where
  "dadd (Fin x) (Fin y) = double_of (x + y)"
| "dadd NaN _ = NaN"
| "dadd _ NaN = NaN"
| "dadd PosInf NegInf = NaN"
| "dadd NegInf PosInf = NaN"
| "dadd PosInf _ = PosInf"
| "dadd NegInf _ = NegInf"
| "dadd _ PosInf = PosInf"
| "dadd _ NegInf = NegInf"

definition dsub :: "jsnum \<Rightarrow> jsnum \<Rightarrow> jsnum" where
  "dsub a b = dadd a (dneg b)"

text \<open>The sign of a number: 1, -1, or 0 for zero and for \<^verbatim>\<open>NaN\<close>.\<close>

fun dsign :: "jsnum \<Rightarrow> int" where
  "dsign (Fin x) = (if 0 < x then 1 else if x < 0 then - 1 else 0)"
| "dsign PosInf = 1"
| "dsign NegInf = - 1"
| "dsign NaN = 0"

fun dmul :: "jsnum \<Rightarrow> jsnum \<Rightarrow> jsnum" where
  "dmul (Fin x) (Fin y) = double_of (x * y)"
| "dmul NaN _ = NaN"
| "dmul _ NaN = NaN"
| "dmul a b =
     (if dsign a * dsign b = 0 then NaN
      else if 0 < dsign a * dsign b then PosInf else NegInf)"

fun ddiv :: "jsnum \<Rightarrow> jsnum \<Rightarrow> jsnum" where
  "ddiv (Fin x) (Fin y) =
     (if y \<noteq> 0 then double_of (x / y)
      else if x = 0 then NaN
      else if 0 < x then PosInf else NegInf)"
| "ddiv NaN _ = NaN"
| "ddiv _ NaN = NaN"
| "ddiv (Fin x) _ = Fin 0"
| "ddiv PosInf (Fin y) = (if 0 \<le> y then PosInf else NegInf)"
| "ddiv NegInf (Fin y) = (if 0 \<le> y then NegInf else PosInf)"
| "ddiv _ _ = NaN"

fun dmin :: "jsnum \<Rightarrow> jsnum \<Rightarrow> jsnum" where
  "dmin (Fin x) (Fin y) = Fin (min x y)"
| "dmin NaN _ = NaN"
| "dmin _ NaN = NaN"
| "dmin NegInf _ = NegInf"
| "dmin _ NegInf = NegInf"
| "dmin PosInf b = b"
| "dmin a PosInf = a"

fun dle :: "jsnum \<Rightarrow> jsnum \<Rightarrow> bool" where
  "dle (Fin x) (Fin y) = (x \<le> y)"
| "dle NaN _ = False"
| "dle _ NaN = False"
| "dle NegInf _ = True"
| "dle _ PosInf = True"
| "dle _ _ = False"

definition dgt :: "jsnum \<Rightarrow> jsnum \<Rightarrow> bool" where
  "dgt a b = (dle b a \<and> \<not> dle a b)"

section \<open>The order book snapshot of \<^verbatim>\<open>getOrderBook\<close>\<close>

text \<open>
  A level of \<^verbatim>\<open>getL2(depth)\<close> is the triple \<^verbatim>\<open>[price, size, orderId]\<close>; the loops of
  \<^verbatim>\<open>getOrderBook\<close> push one item per level, in order, with the side attached.
\<close>

type_synonym level = "rat \<times> rat \<times> string"

record item =
  price :: rat
  sz :: rat
  orderId :: string
  side :: string

fun mkItem :: "string \<Rightarrow> level \<Rightarrow> item" where
  "mkItem sd (p, q, oid) = \<lparr>price = p, sz = q, orderId = oid, side = sd\<rparr>"

definition bidItems :: "level list \<Rightarrow> item list" where
  "bidItems l2 = map (mkItem ''buy'') l2"

definition askItems :: "level list \<Rightarrow> item list" where
  "askItems l2 = map (mkItem ''sell'') l2"

text \<open>
  \<^verbatim>\<open>bestBid = bidItems.length > 0 ? bidItems[0].price : 0\<close>, and the same for the asks.
\<close>

definition bestBid :: "item list \<Rightarrow> rat" where
  "bestBid bids = (if length bids > 0 then price (bids ! 0) else 0)"

definition bestAsk :: "item list \<Rightarrow> rat" where
  "bestAsk asks = (if length asks > 0 then price (asks ! 0) else 0)"

record orderBook =
  ob_market :: string
  bids :: "item list"
  asks :: "item list"
  spread :: rat
  spreadPercentage :: rat
  timestamp :: int

text \<open>
  The part of \<^verbatim>\<open>getOrderBook\<close> after the two sides are loaded (lines 74 to 109):
  \<open>bl\<close> and \<open>al\<close> are the results of \<^verbatim>\<open>bids.getL2(depth)\<close> and
  \<^verbatim>\<open>asks.getL2(depth)\<close>, \<open>ts\<close> is the clock reading of \<^verbatim>\<open>new Date()\<close>.
\<close>

definition snapshot :: "string \<Rightarrow> level list \<Rightarrow> level list \<Rightarrow> int \<Rightarrow> orderBook" where
  "snapshot marketAddress bl al ts =
     (let bs = bidItems bl;
          as = askItems al;
          bb = bestBid bs;
          ba = bestAsk as;
          sp = ba - bb;
          spp = (if bb > 0 then (sp / bb) * 100 else 0)
      in \<lparr>ob_market = marketAddress, bids = bs, asks = as,
          spread = sp, spreadPercentage = spp, timestamp = ts\<rparr>)"

section \<open>\<^verbatim>\<open>estimateMarketOrderPrice\<close>\<close>

datatype exn = Error string

fun message :: "exn \<Rightarrow> string" where
  "message (Error m) = m"

definition insufficientLiquidity :: exn where
  "insufficientLiquidity = Error ''Insufficient liquidity to execute market order of this size''"

text \<open>
  The \<^verbatim>\<open>for\<close> loop of \<^verbatim>\<open>estimateMarketOrderPrice\<close>, as a walk over the list that carries
  \<^verbatim>\<open>remainingSize\<close> and \<^verbatim>\<open>totalCost\<close>; the \<^verbatim>\<open>break\<close> is the branch that returns
  without looking at the rest of the list. The requested size is any number; the
  price and the size of a level are finite numbers.
\<close>

fun walk :: "item list \<Rightarrow> jsnum \<Rightarrow> jsnum \<Rightarrow> jsnum \<times> jsnum" where
  "walk [] remainingSize totalCost = (remainingSize, totalCost)"
| "walk (order # orders) remainingSize totalCost =
     (let sizeToTake = dmin remainingSize (Fin (sz order));
          totalCost' = dadd totalCost (dmul sizeToTake (Fin (price order)));
          remainingSize' = dsub remainingSize sizeToTake
      in if dle remainingSize' (Fin 0) then (remainingSize', totalCost')
         else walk orders remainingSize' totalCost')"

definition estimateMarketOrderPrice :: "item list \<Rightarrow> jsnum \<Rightarrow> string \<Rightarrow> exn + jsnum" where
  "estimateMarketOrderPrice orders reqSize sd =
     (case walk orders reqSize (Fin 0) of
        (remainingSize, totalCost) \<Rightarrow>
          if dgt remainingSize (Fin 0) then Inl insufficientLiquidity
          else Inr (ddiv totalCost reqSize))"

text \<open>
  The quantities the walk takes, level by level, in exact arithmetic: a level is
  consumed while something remains to be filled, and what is taken from it is
  the minimum of what remains and the level's size.
\<close>

fun consumed :: "item list \<Rightarrow> rat \<Rightarrow> (item \<times> rat) list" where
  "consumed [] remaining = []"
| "consumed (order # orders) remaining =
     (if remaining \<le> 0 then []
      else (order, min remaining (sz order)) # consumed orders (remaining - sz order))"

definition available :: "item list \<Rightarrow> rat" where
  "available orders = sum_list (map sz orders)"

definition consumedCost :: "item list \<Rightarrow> rat \<Rightarrow> rat" where
  "consumedCost orders reqSize = (\<Sum>(order, q) \<leftarrow> consumed orders reqSize. q * price order)"

definition consumedPrices :: "item list \<Rightarrow> rat \<Rightarrow> rat set" where
  "consumedPrices orders reqSize = set (map (price \<circ> fst) (consumed orders reqSize))"

text \<open>
  When the walk does not round. \<open>exactRemainders\<close>: every subtraction
  \<^verbatim>\<open>remainingSize -= sizeToTake\<close> the walk performs has a double as its exact value.
  \<open>exactCosts\<close>: so has every product \<^verbatim>\<open>sizeToTake * order.price\<close> and every sum
  \<^verbatim>\<open>totalCost += ...\<close>.
\<close>

fun exactRemainders :: "item list \<Rightarrow> rat \<Rightarrow> bool" where
  "exactRemainders [] remaining = True"
| "exactRemainders (order # orders) remaining =
     (isDouble (remaining - min remaining (sz order))
      \<and> (if remaining - min remaining (sz order) \<le> 0 then True
         else exactRemainders orders (remaining - min remaining (sz order))))"

fun exactCosts :: "item list \<Rightarrow> rat \<Rightarrow> rat \<Rightarrow> bool" where
  "exactCosts [] remaining cost = True"
| "exactCosts (order # orders) remaining cost =
     (isDouble (min remaining (sz order) * price order)
      \<and> isDouble (cost + min remaining (sz order) * price order)
      \<and> (if remaining - min remaining (sz order) \<le> 0 then True
         else exactCosts orders (remaining - min remaining (sz order))
                (cost + min remaining (sz order) * price order)))"

section \<open>The statistics of \<^verbatim>\<open>getMarketStats\<close>\<close>

text \<open>
  A trade as \<^verbatim>\<open>getRecentTrades\<close> formats it. The field \<^verbatim>\<open>time\<close> is an ISO string made
  from a valid date and read back with \<^verbatim>\<open>new Date(trade.time).getTime()\<close>; it is
  modelled by that number of milliseconds.
\<close>

record trade =
  t_price :: rat
  t_size :: rat
  t_side :: string
  time :: int
  feeCost :: rat
  t_marketAddress :: string

definition oneDayAgo :: "int \<Rightarrow> int" where
  "oneDayAgo now = now - 24 * 60 * 60 * 1000"

definition inWindow :: "int \<Rightarrow> trade \<Rightarrow> bool" where
  "inWindow now t = (time t \<ge> oneDayAgo now)"

definition lastPrice :: "trade list \<Rightarrow> rat" where
  "lastPrice recentTrades = (if length recentTrades > 0 then t_price (recentTrades ! 0) else 0)"

text \<open>\<^verbatim>\<open>.filter(...).pop()\<close>: the last element of the filtered array, or \<^verbatim>\<open>undefined\<close>.\<close>

definition oldestTradeInWindow :: "int \<Rightarrow> trade list \<Rightarrow> trade option" where
  "oldestTradeInWindow now recentTrades =
     (case filter (inWindow now) recentTrades of
        [] \<Rightarrow> None
      | t # ts \<Rightarrow> Some (last (t # ts)))"

definition priceChange :: "int \<Rightarrow> trade list \<Rightarrow> jsnum" where
  "priceChange now recentTrades =
     (case oldestTradeInWindow now recentTrades of
        Some t \<Rightarrow> js_times (js_div (lastPrice recentTrades - t_price t) (t_price t)) 100
      | None \<Rightarrow> Fin 0)"

definition volume24h :: "int \<Rightarrow> trade list \<Rightarrow> rat" where
  "volume24h now recentTrades =
     foldl (\<lambda>total t. total + (t_price t * t_size t)) 0 (filter (inWindow now) recentTrades)"

definition trades24h :: "int \<Rightarrow> trade list \<Rightarrow> trade list" where
  "trades24h now recentTrades = filter (inWindow now) recentTrades"

text \<open>\<^verbatim>\<open>Math.max(...xs)\<close> and \<^verbatim>\<open>Math.min(...xs)\<close>, used on non-empty lists only.\<close>

fun mathMax :: "rat list \<Rightarrow> rat" where
  "mathMax [] = 0"
| "mathMax (x # xs) = fold max xs x"

fun mathMin :: "rat list \<Rightarrow> rat" where
  "mathMin [] = 0"
| "mathMin (x # xs) = fold min xs x"

definition high24h :: "int \<Rightarrow> trade list \<Rightarrow> rat" where
  "high24h now recentTrades =
     (if length (trades24h now recentTrades) > 0
      then mathMax (map t_price (trades24h now recentTrades))
      else lastPrice recentTrades)"

definition low24h :: "int \<Rightarrow> trade list \<Rightarrow> rat" where
  "low24h now recentTrades =
     (if length (trades24h now recentTrades) > 0
      then mathMin (map t_price (trades24h now recentTrades))
      else lastPrice recentTrades)"

record marketStats =
  ms_marketAddress :: string
  ms_lastPrice :: rat
  ms_priceChange :: jsnum
  ms_volume24h :: rat
  ms_high24h :: rat
  ms_low24h :: rat
  ms_bestBid :: rat
  ms_bestAsk :: rat
  ms_spread :: rat
  ms_spreadPercentage :: rat
  ms_baseVolume24h :: rat
  ms_quoteVolume24h :: rat
  ms_updated :: int

text \<open>
  The part of \<^verbatim>\<open>getMarketStats\<close> after its three loads (lines 521 to 566); \<open>now\<close> is
  the reading of \<^verbatim>\<open>Date.now()\<close> and \<open>upd\<close> that of the final \<^verbatim>\<open>new Date()\<close>.
\<close>

definition stats :: "string \<Rightarrow> orderBook \<Rightarrow> trade list \<Rightarrow> int \<Rightarrow> int \<Rightarrow> marketStats" where
  "stats marketAddress ob recentTrades now upd =
     \<lparr>ms_marketAddress = marketAddress,
      ms_lastPrice = lastPrice recentTrades,
      ms_priceChange = priceChange now recentTrades,
      ms_volume24h = volume24h now recentTrades,
      ms_high24h = high24h now recentTrades,
      ms_low24h = low24h now recentTrades,
      ms_bestBid = (if length (bids ob) > 0 then price (bids ob ! 0) else 0),
      ms_bestAsk = (if length (asks ob) > 0 then price (asks ob ! 0) else 0),
      ms_spread = spread ob,
      ms_spreadPercentage = spreadPercentage ob,
      ms_baseVolume24h = foldl (\<lambda>total t. total + t_size t) 0 (trades24h now recentTrades),
      ms_quoteVolume24h = volume24h now recentTrades,
      ms_updated = upd\<rparr>"

section \<open>The SDK, the network and the state of a \<^verbatim>\<open>SolanaOrderBook\<close>\<close>

text \<open>
  The class calls the Serum and web3 libraries, which talk to the network. Their code is
  not part of the repository; each call is modelled as an oracle that sees the history
  of the calls made so far and either throws (\<open>Inl\<close>, the message of the error) or
  returns a value. Every call is appended to the history, so a theorem about all
  environments covers every behaviour of the network, and the history tells which calls
  an operation made. \<^verbatim>\<open>Promise.all\<close> of the two loads of a book is one call. The
  constructor \<^verbatim>\<open>new BN(x)\<close> of the big-number library is such a call too: it throws on
  numbers and strings it does not accept.

  An \<^verbatim>\<open>await\<close> is where a method gives up control. Inside one call of a method the
  steps are sequential; two calls overlap when the second starts while the first is
  waiting. \<^verbatim>\<open>getMarket\<close> is modelled in the two parts that its one \<^verbatim>\<open>await\<close>
  separates, so that overlapping calls of it can be written down.
\<close>

datatype market = Market (address: string) (handle: nat)

datatype account = OpenOrdersAccount (acc_address: string)

datatype wallet = Wallet (publicKey: string)

datatype instruction = Instruction string

record placeOrderArgs =
  a_owner :: string
  a_payer :: string
  a_side :: string
  a_price :: int
  a_size :: int
  a_orderType :: string
  a_clientId :: "int option"
  a_openOrdersAddressKey :: string
  a_feeDiscountPubkey :: "string option"
  a_selfTradeBehavior :: string

record cancelOrderArgs =
  c_owner :: string
  c_openOrders :: string
  c_orderId :: int
  c_side :: string

record fill =
  f_price :: rat
  f_size :: rat
  f_side :: string
  eventTimestamp :: int
  f_feeCost :: rat

record ownerOrder =
  oo_orderId :: string
  oo_price :: rat
  oo_size :: rat
  oo_side :: string
  oo_clientId :: "int option"
  oo_feeTier :: nat

text \<open>The argument of \<^verbatim>\<open>new BN(x)\<close>, a number or a string; the result is an integer.\<close>

datatype bnArg = BnNumber int | BnString string

datatype call =
    NewPublicKey string
  | NewBN bnArg
  | MarketLoad string
  | LoadBidsAsks market
  | FindOpenOrdersAccountsForOwner market string
  | MakeCreateAccountTransaction string string
  | SendTransaction "instruction list" wallet string
  | ConfirmTransaction string
  | PriceNumberToLots market jsnum
  | BaseSizeNumberToLots market jsnum
  | MakePlaceOrderInstruction market placeOrderArgs
  | MakeCancelOrderInstruction market cancelOrderArgs
  | MakeSettleFundsTransaction market account string string
  | LoadOrdersForOwner market string
  | LoadFills market nat

record env =
  newPublicKey :: "call list \<Rightarrow> string \<Rightarrow> string + string"
  newBN :: "call list \<Rightarrow> bnArg \<Rightarrow> string + int"
  Market_load :: "call list \<Rightarrow> string \<Rightarrow> string + market"
  loadBidsAsks :: "call list \<Rightarrow> market \<Rightarrow> string + (level list \<times> level list)"
  findOpenOrdersAccountsForOwner :: "call list \<Rightarrow> market \<Rightarrow> string \<Rightarrow> string + account list"
  makeCreateAccountTransaction :: "call list \<Rightarrow> string \<Rightarrow> string \<Rightarrow> string + instruction"
  sendTransaction :: "call list \<Rightarrow> instruction list \<Rightarrow> wallet \<Rightarrow> string \<Rightarrow> string + string"
  confirmTransaction :: "call list \<Rightarrow> string \<Rightarrow> string + unit"
  priceNumberToLots :: "call list \<Rightarrow> market \<Rightarrow> jsnum \<Rightarrow> string + int"
  baseSizeNumberToLots :: "call list \<Rightarrow> market \<Rightarrow> jsnum \<Rightarrow> string + int"
  makePlaceOrderInstruction :: "call list \<Rightarrow> market \<Rightarrow> placeOrderArgs \<Rightarrow> string + instruction"
  makeCancelOrderInstruction :: "call list \<Rightarrow> market \<Rightarrow> cancelOrderArgs \<Rightarrow> string + instruction"
  makeSettleFundsTransaction ::
    "call list \<Rightarrow> market \<Rightarrow> account \<Rightarrow> string \<Rightarrow> string \<Rightarrow> string + instruction"
  loadOrdersForOwner :: "call list \<Rightarrow> market \<Rightarrow> string \<Rightarrow> string + ownerOrder list"
  loadFills :: "call list \<Rightarrow> market \<Rightarrow> nat \<Rightarrow> string + fill list"
  clock :: "call list \<Rightarrow> int"
  feeDiscountPubkey :: "string option"

text \<open>
  The state of an instance: the \<^verbatim>\<open>marketCache\<close> map of the constructor, and the history
  of the calls it made.
\<close>

record state =
  marketCache :: "string \<rightharpoonup> market"
  history :: "call list"

definition constructor :: state where
  "constructor = \<lparr>marketCache = Map.empty, history = []\<rparr>"

text \<open>
  An operation takes the state and returns the new state with either the exception it
  threw (a rejected promise) or its value.
\<close>

type_synonym 'a io = "state \<Rightarrow> (exn + 'a) \<times> state"

definition return :: "'a \<Rightarrow> 'a io" where
  "return x s = (Inr x, s)"

definition throw :: "exn \<Rightarrow> 'a io" where
  "throw e s = (Inl e, s)"

definition bind :: "'a io \<Rightarrow> ('a \<Rightarrow> 'b io) \<Rightarrow> 'b io" where
  "bind m f s = (case m s of (Inl e, s') \<Rightarrow> (Inl e, s') | (Inr x, s') \<Rightarrow> f x s')"

text \<open>\<^verbatim>\<open>try { m } catch (error) { handler(error) }\<close>\<close>

definition try_catch :: "'a io \<Rightarrow> (exn \<Rightarrow> 'a io) \<Rightarrow> 'a io" where
  "try_catch m handler s = (case m s of (Inl e, s') \<Rightarrow> handler e s' | (Inr x, s') \<Rightarrow> (Inr x, s'))"

text \<open>A call of the SDK: the oracle answers from the history, the call is recorded.\<close>

definition sdk :: "(call list \<Rightarrow> string + 'a) \<Rightarrow> call \<Rightarrow> 'a io" where
  "sdk oracle c s =
     ((case oracle (history s) of Inl m \<Rightarrow> Inl (Error m) | Inr v \<Rightarrow> Inr v),
      s\<lparr>history := history s @ [c]\<rparr>)"

definition dateNow :: "env \<Rightarrow> int io" where
  "dateNow e s = (Inr (clock e (history s)), s)"

text \<open>Reading \<^verbatim>\<open>xs[0].address\<close> of an empty array is a \<^verbatim>\<open>TypeError\<close>.\<close>

definition typeError :: exn where
  "typeError = Error ''Cannot read properties of undefined (reading 'address')''"

definition firstAddress :: "account list \<Rightarrow> string io" where
  "firstAddress accounts =
     (case accounts of [] \<Rightarrow> throw typeError | a # _ \<Rightarrow> return (acc_address a))"

section \<open>\<^verbatim>\<open>getMarket\<close> and \<^verbatim>\<open>getOrderBook\<close>\<close>

text \<open>
  \<^verbatim>\<open>getMarket\<close> up to its \<^verbatim>\<open>await\<close>: either the call is over (a cached market, or the
  error of \<^verbatim>\<open>new PublicKey\<close> wrapped by the \<^verbatim>\<open>catch\<close>), or \<^verbatim>\<open>Market.load\<close> has been
  called and the call waits for its outcome, the market or the message of its error.
\<close>

definition getMarket_start ::
  "env \<Rightarrow> string \<Rightarrow> state \<Rightarrow> ((exn + market) + (string + market)) \<times> state" where
  "getMarket_start e marketAddress s =
     (case marketCache s marketAddress of
        Some market \<Rightarrow> (Inl (Inr market), s)
      | None \<Rightarrow>
          (case sdk (\<lambda>h. newPublicKey e h marketAddress) (NewPublicKey marketAddress) s of
             (Inl error, s1) \<Rightarrow>
               (Inl (Inl (Error (''Failed to load market: '' @ message error))), s1)
           | (Inr marketPubkey, s1) \<Rightarrow>
               (Inr (Market_load e (history s1) marketPubkey),
                s1\<lparr>history := history s1 @ [MarketLoad marketPubkey]\<rparr>)))"

text \<open>
  \<^verbatim>\<open>getMarket\<close> from its \<^verbatim>\<open>await\<close> on: the loaded market is stored and returned, the
  error of the load is wrapped by the \<^verbatim>\<open>catch\<close>.
\<close>

definition getMarket_finish :: "string \<Rightarrow> string + market \<Rightarrow> market io" where
  "getMarket_finish marketAddress loaded s =
     (case loaded of
        Inl msg \<Rightarrow> (Inl (Error (''Failed to load market: '' @ msg)), s)
      | Inr market \<Rightarrow>
          (Inr market, s\<lparr>marketCache := (marketCache s)(marketAddress \<mapsto> market)\<rparr>))"

text \<open>A call of \<^verbatim>\<open>getMarket\<close> that nothing else runs into: the two parts in a row.\<close>

definition getMarket :: "env \<Rightarrow> string \<Rightarrow> market io" where
  "getMarket e marketAddress s =
     (case getMarket_start e marketAddress s of
        (Inl outcome, s1) \<Rightarrow> (outcome, s1)
      | (Inr loaded, s1) \<Rightarrow> getMarket_finish marketAddress loaded s1)"

text \<open>
  \<^verbatim>\<open>getL2(depth)\<close> of the SDK gives the first \<open>depth\<close> levels of a side; the parameter
  \<^verbatim>\<open>depth\<close> defaults to 20.
\<close>

definition getL2 :: "level list \<Rightarrow> nat \<Rightarrow> level list" where
  "getL2 slab depth = take depth slab"

definition getOrderBook :: "env \<Rightarrow> string \<Rightarrow> nat option \<Rightarrow> orderBook io" where
  "getOrderBook e marketAddress depthArg =
     (let depth = (case depthArg of None \<Rightarrow> 20 | Some d \<Rightarrow> d) in
      try_catch
        (bind (getMarket e marketAddress) (\<lambda>market.
         bind (sdk (\<lambda>h. loadBidsAsks e h market) (LoadBidsAsks market)) (\<lambda>(bidSlab, askSlab).
         bind (dateNow e) (\<lambda>ts.
         return (snapshot marketAddress (getL2 bidSlab depth) (getL2 askSlab depth) ts)))))
        (\<lambda>error. throw (Error (''Failed to fetch order book: '' @ message error))))"

section \<open>The mutating operations\<close>

text \<open>
  The plain objects the four operations return: \<^verbatim>\<open>{ success: true, txid, ... }\<close> with the
  parameters echoed, or \<^verbatim>\<open>{ success: false, error }\<close>. The echoed \<^verbatim>\<open>clientId\<close> is the
  number whose decimal string the code returns.
\<close>

datatype result =
    Placed (txid: string) (r_market: string) (r_side: string) (r_price: jsnum) (r_size: jsnum)
      (r_orderType: string) (r_clientId: "int option")
  | Cancelled (txid: string) (r_market: string) (r_orderId: string)
  | Settled (txid: string) (r_market: string)
  | Failure (error: string)

fun success :: "result \<Rightarrow> bool" where
  "success (Failure _) = False"
| "success _ = True"

text \<open>
  Truthiness, as the conditionals \<^verbatim>\<open>clientId ? ... : undefined\<close> and
  \<^verbatim>\<open>openOrdersAddress ? ... : ...\<close> test it: \<^verbatim>\<open>undefined\<close>, \<^verbatim>\<open>0\<close> and the empty string
  are falsy.
\<close>

definition truthyId :: "int option \<Rightarrow> int option" where
  "truthyId c = (case c of None \<Rightarrow> None | Some n \<Rightarrow> if n = 0 then None else Some n)"

definition truthyString :: "string option \<Rightarrow> string option" where
  "truthyString x = (case x of None \<Rightarrow> None | Some str \<Rightarrow> if str = [] then None else Some str)"

definition liftE :: "exn + 'a \<Rightarrow> 'a io" where
  "liftE x = (case x of Inl e \<Rightarrow> throw e | Inr v \<Rightarrow> return v)"

text \<open>
  Each of the four methods destructures its argument before its \<^verbatim>\<open>try\<close>. The argument
  is \<open>Some\<close> object with the documented properties, or \<open>None\<close> when the method is
  called with no argument (or with \<^verbatim>\<open>undefined\<close> or \<^verbatim>\<open>null\<close>); destructuring that throws
  a \<^verbatim>\<open>TypeError\<close>, outside the \<^verbatim>\<open>try\<close>.
\<close>

definition destructureError :: exn where
  "destructureError =
     Error ''Cannot destructure property 'marketAddress' of 'params' as it is undefined.''"

record limitOrderParams =
  p_marketAddress :: string
  p_wallet :: wallet
  p_side :: string
  p_price :: jsnum
  p_size :: jsnum
  p_orderType :: "string option"
  p_clientId :: "int option"
  p_selfTradeBehavior :: "string option"

definition placeLimitOrder :: "env \<Rightarrow> limitOrderParams option \<Rightarrow> result io" where
  "placeLimitOrder e paramsArg =
     (case paramsArg of
        None \<Rightarrow> throw destructureError
      | Some params \<Rightarrow>
     (let marketAddress = p_marketAddress params;
          wallet = p_wallet params;
          orderType = (case p_orderType params of None \<Rightarrow> ''limit'' | Some t \<Rightarrow> t);
          selfTradeBehavior =
            (case p_selfTradeBehavior params of None \<Rightarrow> ''decrementTake'' | Some b \<Rightarrow> b)
      in
      try_catch
        (bind (getMarket e marketAddress) (\<lambda>market.
         bind (sdk (\<lambda>h. findOpenOrdersAccountsForOwner e h market (publicKey wallet))
                 (FindOpenOrdersAccountsForOwner market (publicKey wallet))) (\<lambda>found.
         bind (if length found = 0 then
                 bind (sdk (\<lambda>h. makeCreateAccountTransaction e h (address market) (publicKey wallet))
                         (MakeCreateAccountTransaction (address market) (publicKey wallet)))
                   (\<lambda>instruction.
                 bind (sdk (\<lambda>h. sendTransaction e h [instruction] wallet ''processed'')
                         (SendTransaction [instruction] wallet ''processed'')) (\<lambda>txid.
                 bind (sdk (\<lambda>h. confirmTransaction e h txid) (ConfirmTransaction txid)) (\<lambda>_.
                 sdk (\<lambda>h. findOpenOrdersAccountsForOwner e h market (publicKey wallet))
                   (FindOpenOrdersAccountsForOwner market (publicKey wallet)))))
               else return found) (\<lambda>openOrdersAccounts.
         bind (firstAddress openOrdersAccounts) (\<lambda>openOrdersAddress.
         bind (sdk (\<lambda>h. priceNumberToLots e h market (p_price params))
                 (PriceNumberToLots market (p_price params))) (\<lambda>priceLots.
         bind (sdk (\<lambda>h. baseSizeNumberToLots e h market (p_size params))
                 (BaseSizeNumberToLots market (p_size params))) (\<lambda>sizeLots.
         bind (case truthyId (p_clientId params) of
                 None \<Rightarrow> return None
               | Some clientId \<Rightarrow>
                   bind (sdk (\<lambda>h. newBN e h (BnNumber clientId)) (NewBN (BnNumber clientId)))
                     (\<lambda>bn. return (Some bn))) (\<lambda>clientIdBN.
         let args = \<lparr>a_owner = publicKey wallet,
                     a_payer = (if p_side params = ''buy'' then publicKey wallet
                                else openOrdersAddress),
                     a_side = p_side params,
                     a_price = priceLots,
                     a_size = sizeLots,
                     a_orderType = orderType,
                     a_clientId = clientIdBN,
                     a_openOrdersAddressKey = openOrdersAddress,
                     a_feeDiscountPubkey = feeDiscountPubkey e,
                     a_selfTradeBehavior = selfTradeBehavior\<rparr> in
         bind (sdk (\<lambda>h. makePlaceOrderInstruction e h market args)
                 (MakePlaceOrderInstruction market args)) (\<lambda>instruction.
         bind (sdk (\<lambda>h. sendTransaction e h [instruction] wallet ''confirmed'')
                 (SendTransaction [instruction] wallet ''confirmed'')) (\<lambda>txid.
         return (Placed txid marketAddress (p_side params) (p_price params) (p_size params)
                   orderType (truthyId (p_clientId params)))))))))))))
        (\<lambda>error. return (Failure (message error)))))"

record marketOrderParams =
  m_marketAddress :: string
  m_wallet :: wallet
  m_side :: string
  m_size :: jsnum
  m_orderType :: "string option"
  m_clientId :: "int option"

text \<open>The literal \<^verbatim>\<open>1.05\<close> is the double nearest to 1.05.\<close>

definition slippage :: rat where
  "slippage = 4728779608739021 / 4503599627370496"

definition placeMarketOrder :: "env \<Rightarrow> marketOrderParams option \<Rightarrow> result io" where
  "placeMarketOrder e paramsArg =
     (case paramsArg of
        None \<Rightarrow> throw destructureError
      | Some params \<Rightarrow>
     (let marketAddress = m_marketAddress params;
          orderType = (case m_orderType params of None \<Rightarrow> ''ioc'' | Some t \<Rightarrow> t)
      in
      try_catch
        (bind (getMarket e marketAddress) (\<lambda>market.
         bind (getOrderBook e marketAddress None) (\<lambda>orderBook.
         bind (liftE (if m_side params = ''buy''
                      then estimateMarketOrderPrice (asks orderBook) (m_size params) (m_side params)
                      else estimateMarketOrderPrice (bids orderBook) (m_size params) (m_side params)))
           (\<lambda>estimatedPrice.
         placeLimitOrder e
           (Some \<lparr>p_marketAddress = marketAddress,
                  p_wallet = m_wallet params,
                  p_side = m_side params,
                  p_price = dmul estimatedPrice (Fin slippage),
                  p_size = m_size params,
                  p_orderType = Some orderType,
                  p_clientId = m_clientId params,
                  p_selfTradeBehavior = None\<rparr>)))))
        (\<lambda>error. return (Failure (message error)))))"

record cancelOrderParams =
  co_marketAddress :: string
  co_wallet :: wallet
  co_orderId :: string
  co_side :: string
  co_openOrdersAddress :: "string option"

definition cancelOrder :: "env \<Rightarrow> cancelOrderParams option \<Rightarrow> result io" where
  "cancelOrder e paramsArg =
     (case paramsArg of
        None \<Rightarrow> throw destructureError
      | Some params \<Rightarrow>
     (let marketAddress = co_marketAddress params;
          wallet = co_wallet params
      in
      try_catch
        (bind (getMarket e marketAddress) (\<lambda>market.
         bind (case truthyString (co_openOrdersAddress params) of
                 Some openOrdersAddress \<Rightarrow>
                   sdk (\<lambda>h. newPublicKey e h openOrdersAddress) (NewPublicKey openOrdersAddress)
               | None \<Rightarrow>
                   bind (sdk (\<lambda>h. findOpenOrdersAccountsForOwner e h market (publicKey wallet))
                           (FindOpenOrdersAccountsForOwner market (publicKey wallet)))
                     firstAddress) (\<lambda>openOrdersAccount.
         bind (sdk (\<lambda>h. newBN e h (BnString (co_orderId params)))
                 (NewBN (BnString (co_orderId params)))) (\<lambda>orderIdBN.
         let args = \<lparr>c_owner = publicKey wallet, c_openOrders = openOrdersAccount,
                     c_orderId = orderIdBN, c_side = co_side params\<rparr> in
         bind (sdk (\<lambda>h. makeCancelOrderInstruction e h market args)
                 (MakeCancelOrderInstruction market args)) (\<lambda>instruction.
         bind (sdk (\<lambda>h. sendTransaction e h [instruction] wallet ''confirmed'')
                 (SendTransaction [instruction] wallet ''confirmed'')) (\<lambda>txid.
         return (Cancelled txid marketAddress (co_orderId params))))))))
        (\<lambda>error. return (Failure (message error)))))"

record settleFundsParams =
  sf_marketAddress :: string
  sf_wallet :: wallet
  sf_openOrdersAddress :: "string option"

text \<open>
  The loop of \<^verbatim>\<open>settleFunds\<close> that adds one instruction per account; the oracle stands
  for \<^verbatim>\<open>market.makeSettleFundsTransaction(...).instructions[0]\<close>.
\<close>

fun settleInstructions ::
  "env \<Rightarrow> market \<Rightarrow> wallet \<Rightarrow> account list \<Rightarrow> instruction list \<Rightarrow> instruction list io" where
  "settleInstructions e market wallet [] transaction s = (Inr transaction, s)"
| "settleInstructions e market wallet (openOrders # rest) transaction s =
     (case sdk (\<lambda>h. makeSettleFundsTransaction e h market openOrders
                       (publicKey wallet) (publicKey wallet))
             (MakeSettleFundsTransaction market openOrders (publicKey wallet) (publicKey wallet)) s of
        (Inl err, s') \<Rightarrow> (Inl err, s')
      | (Inr instruction, s') \<Rightarrow>
          settleInstructions e market wallet rest (transaction @ [instruction]) s')"

definition noOpenOrders :: string where
  "noOpenOrders = ''No open orders account found''"

definition settleFunds :: "env \<Rightarrow> settleFundsParams option \<Rightarrow> result io" where
  "settleFunds e paramsArg =
     (case paramsArg of
        None \<Rightarrow> throw destructureError
      | Some params \<Rightarrow>
     (let marketAddress = sf_marketAddress params;
          wallet = sf_wallet params
      in
      try_catch
        (bind (getMarket e marketAddress) (\<lambda>market.
         bind (case truthyString (sf_openOrdersAddress params) of
                 Some openOrdersAddress \<Rightarrow>
                   bind (sdk (\<lambda>h. newPublicKey e h openOrdersAddress)
                           (NewPublicKey openOrdersAddress))
                     (\<lambda>pk. return [OpenOrdersAccount pk])
               | None \<Rightarrow>
                   sdk (\<lambda>h. findOpenOrdersAccountsForOwner e h market (publicKey wallet))
                     (FindOpenOrdersAccountsForOwner market (publicKey wallet)))
           (\<lambda>openOrdersAccounts.
         if length openOrdersAccounts = 0
         then return (Failure noOpenOrders)
         else
           bind (settleInstructions e market wallet openOrdersAccounts []) (\<lambda>transaction.
           bind (sdk (\<lambda>h. sendTransaction e h transaction wallet ''confirmed'')
                   (SendTransaction transaction wallet ''confirmed'')) (\<lambda>txid.
           return (Settled txid marketAddress))))))
        (\<lambda>error. return (Failure (message error)))))"

section \<open>The reading operations\<close>

record openOrder =
  x_orderId :: string
  x_marketAddress :: string
  x_price :: rat
  x_size :: rat
  x_side :: string
  x_openOrdersAddress :: string
  x_clientId :: "int option"
  x_feeTier :: nat

definition formatOrder :: "string \<Rightarrow> account \<Rightarrow> ownerOrder \<Rightarrow> openOrder" where
  "formatOrder marketAddress acct order =
     \<lparr>x_orderId = oo_orderId order,
      x_marketAddress = marketAddress,
      x_price = oo_price order,
      x_size = oo_size order,
      x_side = oo_side order,
      x_openOrdersAddress = acc_address acct,
      x_clientId = truthyId (oo_clientId order),
      x_feeTier = oo_feeTier order\<rparr>"

text \<open>The outer loop of \<^verbatim>\<open>getOpenOrders\<close>: one load per account, its orders pushed.\<close>

fun collectOrders ::
  "env \<Rightarrow> market \<Rightarrow> string \<Rightarrow> string \<Rightarrow> account list \<Rightarrow> openOrder list \<Rightarrow> openOrder list io" where
  "collectOrders e market marketAddress walletPublicKey [] openOrders s = (Inr openOrders, s)"
| "collectOrders e market marketAddress walletPublicKey (acct # rest) openOrders s =
     (case sdk (\<lambda>h. loadOrdersForOwner e h market walletPublicKey)
             (LoadOrdersForOwner market walletPublicKey) s of
        (Inl err, s') \<Rightarrow> (Inl err, s')
      | (Inr orders, s') \<Rightarrow>
          collectOrders e market marketAddress walletPublicKey rest
            (openOrders @ map (formatOrder marketAddress acct) orders) s')"

definition getOpenOrders :: "env \<Rightarrow> string \<Rightarrow> string \<Rightarrow> openOrder list io" where
  "getOpenOrders e marketAddress walletAddress =
     try_catch
       (bind (getMarket e marketAddress) (\<lambda>market.
        bind (sdk (\<lambda>h. newPublicKey e h walletAddress) (NewPublicKey walletAddress))
          (\<lambda>walletPublicKey.
        bind (sdk (\<lambda>h. findOpenOrdersAccountsForOwner e h market walletPublicKey)
                (FindOpenOrdersAccountsForOwner market walletPublicKey)) (\<lambda>openOrdersAccounts.
        collectOrders e market marketAddress walletPublicKey openOrdersAccounts []))))
       (\<lambda>error. throw (Error (''Failed to fetch open orders: '' @ message error)))"

text \<open>
  \<^verbatim>\<open>new Date(fill.eventTimestamp * 1000).toISOString()\<close> throws a \<^verbatim>\<open>RangeError\<close> when the
  time value is outside the range of dates.
\<close>

definition rangeError :: exn where
  "rangeError = Error ''Invalid time value''"

fun formatFills :: "string \<Rightarrow> fill list \<Rightarrow> exn + trade list" where
  "formatFills marketAddress [] = Inr []"
| "formatFills marketAddress (f # fs) =
     (if \<bar>eventTimestamp f * 1000\<bar> > 8640000000000000 then Inl rangeError
      else case formatFills marketAddress fs of
             Inl err \<Rightarrow> Inl err
           | Inr ts \<Rightarrow>
               Inr (\<lparr>t_price = f_price f, t_size = f_size f, t_side = f_side f,
                     time = eventTimestamp f * 1000, feeCost = f_feeCost f,
                     t_marketAddress = marketAddress\<rparr> # ts))"

definition getRecentTrades :: "env \<Rightarrow> string \<Rightarrow> nat option \<Rightarrow> trade list io" where
  "getRecentTrades e marketAddress limitArg =
     (let limit = (case limitArg of None \<Rightarrow> 100 | Some l \<Rightarrow> l) in
      try_catch
        (bind (getMarket e marketAddress) (\<lambda>market.
         bind (sdk (\<lambda>h. loadFills e h market limit) (LoadFills market limit)) (\<lambda>fills.
         liftE (formatFills marketAddress fills))))
        (\<lambda>error. throw (Error (''Failed to fetch recent trades: '' @ message error))))"

definition getMarketStats :: "env \<Rightarrow> string \<Rightarrow> marketStats io" where
  "getMarketStats e marketAddress =
     try_catch
       (bind (getMarket e marketAddress) (\<lambda>market.
        bind (getOrderBook e marketAddress None) (\<lambda>orderBook.
        bind (getRecentTrades e marketAddress (Some 100)) (\<lambda>recentTrades.
        bind (dateNow e) (\<lambda>nowMs.
        bind (dateNow e) (\<lambda>upd.
        return (stats marketAddress orderBook recentTrades nowMs upd)))))))
       (\<lambda>error. throw (Error (''Failed to fetch market stats: '' @ message error)))"

section \<open>Sequences of operations\<close>

text \<open>
  What an operation may do to the state: the entries of \<^verbatim>\<open>marketCache\<close> stay as they
  are (the map only grows), and the calls it makes are appended to the history, each
  satisfying \<open>Q\<close>.
\<close>

definition keeps :: "(call \<Rightarrow> bool) \<Rightarrow> 'a io \<Rightarrow> bool" where
  "keeps Q m =
     (\<forall>s. marketCache s \<subseteq>\<^sub>m marketCache (snd (m s))
        \<and> (\<exists>cs. history (snd (m s)) = history s @ cs \<and> list_all Q cs))"

text \<open>The asynchronous methods of the class, and a client calling them in sequence.\<close>

datatype operation =
    GetMarket string
  | GetOrderBook string "nat option"
  | PlaceLimitOrder "limitOrderParams option"
  | PlaceMarketOrder "marketOrderParams option"
  | CancelOrder "cancelOrderParams option"
  | SettleFunds "settleFundsParams option"
  | GetOpenOrders string string
  | GetRecentTrades string "nat option"
  | GetMarketStats string

fun perform :: "env \<Rightarrow> operation \<Rightarrow> state \<Rightarrow> state" where
  "perform e (GetMarket a) s = snd (getMarket e a s)"
| "perform e (GetOrderBook a d) s = snd (getOrderBook e a d s)"
| "perform e (PlaceLimitOrder p) s = snd (placeLimitOrder e p s)"
| "perform e (PlaceMarketOrder p) s = snd (placeMarketOrder e p s)"
| "perform e (CancelOrder p) s = snd (cancelOrder e p s)"
| "perform e (SettleFunds p) s = snd (settleFunds e p s)"
| "perform e (GetOpenOrders a w) s = snd (getOpenOrders e a w s)"
| "perform e (GetRecentTrades a l) s = snd (getRecentTrades e a l s)"
| "perform e (GetMarketStats a) s = snd (getMarketStats e a s)"

text \<open>
  A client that awaits each call before it makes the next: no two calls overlap, and
  each call runs from the state the one before left.
\<close>

fun session :: "env \<Rightarrow> operation list \<Rightarrow> state \<Rightarrow> state" where
  "session e [] s = s"
| "session e (op # ops) s = session e ops (perform e op s)"

text \<open>
  The message a call threw, given the history before it, if it threw; and whether all
  of a sequence of calls made after a history returned normally.
\<close>

definition failure :: "string + 'a \<Rightarrow> string option" where
  "failure r = (case r of Inl m \<Rightarrow> Some m | Inr v \<Rightarrow> None)"

fun thrown :: "env \<Rightarrow> call list \<Rightarrow> call \<Rightarrow> string option" where
  "thrown e h (NewPublicKey a) = failure (newPublicKey e h a)"
| "thrown e h (NewBN x) = failure (newBN e h x)"
| "thrown e h (MarketLoad pk) = failure (Market_load e h pk)"
| "thrown e h (LoadBidsAsks m) = failure (loadBidsAsks e h m)"
| "thrown e h (FindOpenOrdersAccountsForOwner m w) =
     failure (findOpenOrdersAccountsForOwner e h m w)"
| "thrown e h (MakeCreateAccountTransaction a w) = failure (makeCreateAccountTransaction e h a w)"
| "thrown e h (SendTransaction tx w c) = failure (sendTransaction e h tx w c)"
| "thrown e h (ConfirmTransaction t) = failure (confirmTransaction e h t)"
| "thrown e h (PriceNumberToLots m p) = failure (priceNumberToLots e h m p)"
| "thrown e h (BaseSizeNumberToLots m q) = failure (baseSizeNumberToLots e h m q)"
| "thrown e h (MakePlaceOrderInstruction m args) = failure (makePlaceOrderInstruction e h m args)"
| "thrown e h (MakeCancelOrderInstruction m args) = failure (makeCancelOrderInstruction e h m args)"
| "thrown e h (MakeSettleFundsTransaction m a w v) =
     failure (makeSettleFundsTransaction e h m a w v)"
| "thrown e h (LoadOrdersForOwner m w) = failure (loadOrdersForOwner e h m w)"
| "thrown e h (LoadFills m n) = failure (loadFills e h m n)"

fun clean :: "env \<Rightarrow> call list \<Rightarrow> call list \<Rightarrow> bool" where
  "clean e h [] = True"
| "clean e h (c # cs) = (thrown e h c = None \<and> clean e (h @ [c]) cs)"

text \<open>
  What explains a message \<open>msg\<close> of failure after the calls \<open>cs\<close>, made from the
  history \<open>h\<close>: either the last call threw, every call before it returned normally,
  and \<open>msg\<close> is the message of that throw behind one of the prefixes \<open>ws\<close> that the
  \<^verbatim>\<open>catch\<close> blocks on the way add; or every call returned normally and \<open>msg\<close> is one of
  the messages \<open>own\<close> of the errors the module itself raises.
\<close>

fun explains :: "env \<Rightarrow> string list \<Rightarrow> string list \<Rightarrow> call list \<Rightarrow> call list \<Rightarrow> string \<Rightarrow> bool" where
  "explains e ws own h [] msg = (msg \<in> set own)"
| "explains e ws own h (c # cs) msg =
     (case thrown e h c of
        Some m \<Rightarrow> cs = [] \<and> msg \<in> set (map (\<lambda>w. w @ m) ws)
      | None \<Rightarrow> explains e ws own (h @ [c]) cs msg)"

text \<open>The message of failure a value carries, if it is a report of failure.\<close>

definition noVerdict :: "'a \<Rightarrow> string option" where
  "noVerdict x = None"

fun verdict :: "result \<Rightarrow> string option" where
  "verdict (Failure msg) = Some msg"
| "verdict _ = None"

text \<open>
  An outcome is accounted for by the calls made when an exception and a report of
  failure are explained by them, and any other value comes with calls that all
  returned normally, so that no failure was swallowed on the way. A computation is
  tracked when its calls account for its outcome, whatever the state it starts from.
\<close>

definition accounted ::
  "env \<Rightarrow> string list \<Rightarrow> string list \<Rightarrow> ('a \<Rightarrow> string option) \<Rightarrow> call list \<Rightarrow> call list
     \<Rightarrow> exn + 'a \<Rightarrow> bool" where
  "accounted e ws own v h cs r =
     (case r of
        Inl err \<Rightarrow> explains e ws own h cs (message err)
      | Inr x \<Rightarrow>
          (case v x of
             None \<Rightarrow> clean e h cs
           | Some msg \<Rightarrow> explains e ws own h cs msg))"

definition tracked ::
  "env \<Rightarrow> string list \<Rightarrow> string list \<Rightarrow> ('a \<Rightarrow> string option) \<Rightarrow> 'a io \<Rightarrow> bool" where
  "tracked e ws own v m =
     (\<forall>s. \<exists>cs. history (snd (m s)) = history s @ cs
        \<and> accounted e ws own v (history s) cs (fst (m s)))"

text \<open>The prefixes the \<^verbatim>\<open>catch\<close> blocks of \<^verbatim>\<open>getMarket\<close> and \<^verbatim>\<open>getOrderBook\<close> add.\<close>

definition loadPrefixes :: "string list" where
  "loadPrefixes = [[], ''Failed to load market: '']"

definition bookPrefixes :: "string list" where
  "bookPrefixes = [[], ''Failed to load market: '', ''Failed to fetch order book: '',
                   ''Failed to fetch order book: Failed to load market: '']"

text \<open>The side of the book a market order walks: the asks for a buy, the bids otherwise.\<close>

definition opposing :: "string \<Rightarrow> orderBook \<Rightarrow> item list" where
  "opposing sd ob = (if sd = ''buy'' then asks ob else bids ob)"

text \<open>The place-order instructions built with the default self-trade policy.\<close>

fun defaultPolicy :: "call \<Rightarrow> bool" where
  "defaultPolicy (MakePlaceOrderInstruction market args) =
     (a_selfTradeBehavior args = ''decrementTake'')"
| "defaultPolicy _ = True"

fun isPlaceOrder :: "call \<Rightarrow> bool" where
  "isPlaceOrder (MakePlaceOrderInstruction market args) = True"
| "isPlaceOrder _ = False"

fun isSendTransaction :: "call \<Rightarrow> bool" where
  "isSendTransaction (SendTransaction tx w c) = True"
| "isSendTransaction _ = False"

section \<open>Sample data\<close>

text \<open>An ask side with three levels, used to run the definitions on concrete input.\<close>

definition book1 :: "item list" where
  "book1 = [\<lparr>price = 10, sz = 2, orderId = ''1'', side = ''sell''\<rparr>,
            \<lparr>price = 12, sz = 5, orderId = ''2'', side = ''sell''\<rparr>,
            \<lparr>price = 15, sz = 4, orderId = ''3'', side = ''sell''\<rparr>]"

text \<open>
  A level whose price is the double nearest to one tenth, as the literal \<^verbatim>\<open>0.1\<close>
  denotes it.
\<close>

definition tenth :: rat where
  "tenth = 3602879701896397 / 36028797018963968"

definition tenthBook :: "item list" where
  "tenthBook = [\<lparr>price = tenth, sz = 3, orderId = ''1'', side = ''sell''\<rparr>]"

text \<open>Two levels of sizes 1 and 2^53, at the price 1.\<close>

definition hugeBook :: "item list" where
  "hugeBook = [\<lparr>price = 1, sz = 1, orderId = ''1'', side = ''sell''\<rparr>,
               \<lparr>price = 1, sz = 9007199254740992, orderId = ''2'', side = ''sell''\<rparr>]"

text \<open>Three levels of sizes 0.25, 2^52 and 0.75, at the price 1.\<close>

definition splitBook :: "item list" where
  "splitBook = [\<lparr>price = 1, sz = 1 / 4, orderId = ''1'', side = ''sell''\<rparr>,
                \<lparr>price = 1, sz = 4503599627370496, orderId = ''2'', side = ''sell''\<rparr>,
                \<lparr>price = 1, sz = 3 / 4, orderId = ''3'', side = ''sell''\<rparr>]"

text \<open>Lists that are not levels of a book: a negative size.\<close>

definition negBook :: "item list" where
  "negBook = [\<lparr>price = 1, sz = - 1, orderId = ''1'', side = ''sell''\<rparr>,
              \<lparr>price = 2, sz = 5, orderId = ''2'', side = ''sell''\<rparr>]"

definition mixedBook :: "item list" where
  "mixedBook = [\<lparr>price = 1, sz = 5, orderId = ''1'', side = ''sell''\<rparr>,
                \<lparr>price = 1, sz = - 3, orderId = ''2'', side = ''sell''\<rparr>]"


text \<open>
  An environment in which every call succeeds, with a given book, and one in which the
  network is down: \<^verbatim>\<open>Market.load\<close> throws.
\<close>

definition demoEnv :: "level list \<Rightarrow> level list \<Rightarrow> env" where
  "demoEnv bl al =
     \<lparr>newPublicKey = (\<lambda>h a. Inr a),
      newBN = (\<lambda>h x. Inr (case x of BnNumber n \<Rightarrow> n | BnString str \<Rightarrow> 42)),
      Market_load = (\<lambda>h pk. Inr (Market pk 1)),
      loadBidsAsks = (\<lambda>h m. Inr (bl, al)),
      findOpenOrdersAccountsForOwner = (\<lambda>h m w. Inr [OpenOrdersAccount ''oo1'']),
      makeCreateAccountTransaction = (\<lambda>h a w. Inr (Instruction ''create'')),
      sendTransaction = (\<lambda>h tx w c. Inr ''tx1''),
      confirmTransaction = (\<lambda>h t. Inr ()),
      priceNumberToLots = (\<lambda>h m p. Inr 1),
      baseSizeNumberToLots = (\<lambda>h m q. Inr 1),
      makePlaceOrderInstruction = (\<lambda>h m a. Inr (Instruction ''place'')),
      makeCancelOrderInstruction = (\<lambda>h m a. Inr (Instruction ''cancel'')),
      makeSettleFundsTransaction = (\<lambda>h m a w v. Inr (Instruction ''settle'')),
      loadOrdersForOwner = (\<lambda>h m w. Inr []),
      loadFills = (\<lambda>h m n. Inr []),
      clock = (\<lambda>h. 0),
      feeDiscountPubkey = None\<rparr>"

definition downEnv :: env where
  "downEnv = (demoEnv [] [])\<lparr>Market_load := (\<lambda>h pk. Inl ''timeout'')\<rparr>"

definition wallet1 :: wallet where
  "wallet1 = Wallet ''w1''"

text \<open>Requests of the wallet \<open>wallet1\<close> on the market \<open>''M''\<close>.\<close>

definition limit1 :: limitOrderParams where
  "limit1 = \<lparr>p_marketAddress = ''M'', p_wallet = wallet1, p_side = ''buy'', p_price = Fin 10,
              p_size = Fin 2, p_orderType = None, p_clientId = Some 7, p_selfTradeBehavior = None\<rparr>"

definition market1 :: marketOrderParams where
  "market1 = \<lparr>m_marketAddress = ''M'', m_wallet = wallet1, m_side = ''buy'', m_size = Fin 10,
               m_orderType = None, m_clientId = None\<rparr>"

definition cancel1 :: cancelOrderParams where
  "cancel1 = \<lparr>co_marketAddress = ''M'', co_wallet = wallet1, co_orderId = ''42'',
               co_side = ''buy'', co_openOrdersAddress = None\<rparr>"

definition settle1 :: settleFundsParams where
  "settle1 = \<lparr>sf_marketAddress = ''M'', sf_wallet = wallet1, sf_openOrdersAddress = None\<rparr>"


text \<open>
  An environment in which every load gives a new instance: the handle of the market is
  the number of calls made before the load.
\<close>

definition freshEnv :: env where
  "freshEnv = (demoEnv [] [])\<lparr>Market_load := (\<lambda>h pk. Inr (Market pk (length h)))\<rparr>"

text \<open>
  Two calls of \<^verbatim>\<open>getMarket\<close> for the same address that overlap: the second starts while
  the first waits for its load; then the load of the first returns, then that of the
  second.
\<close>

definition overlap1 :: state where
  "overlap1 = snd (getMarket_start freshEnv ''M'' constructor)"

definition overlap2 :: state where
  "overlap2 = snd (getMarket_start freshEnv ''M'' overlap1)"

definition overlap3 :: state where
  "overlap3 = snd (getMarket_finish ''M'' (Inr (Market ''M'' 1)) overlap2)"

definition overlap4 :: state where
  "overlap4 = snd (getMarket_finish ''M'' (Inr (Market ''M'' 3)) overlap3)"







section \<open>Rounding to the nearest double\<close>

lemma floorlog_pos_bounds:
  assumes "0 < (n::int)"
  shows "(2::rat) ^ (floorlog 2 (nat n) - 1) \<le> of_int n" and "of_int n < (2::rat) ^ floorlog 2 (nat n)"
    and "0 < floorlog 2 (nat n)"
proof -
  have p: "0 < nat n" using assms by simp
  from floorlog_bounds[OF p, of 2] have a: "2 ^ (floorlog 2 (nat n) - 1) \<le> nat n"
    and b: "nat n < 2 ^ floorlog 2 (nat n)" by simp_all
  from a have "of_nat (2 ^ (floorlog 2 (nat n) - 1)) \<le> (of_nat (nat n) :: rat)"
    by (rule of_nat_mono)
  then show "(2::rat) ^ (floorlog 2 (nat n) - 1) \<le> of_int n" using assms by simp
  from b have "(of_nat (nat n) :: rat) < of_nat (2 ^ floorlog 2 (nat n))"
    by (simp only: of_nat_less_iff)
  then show "of_int n < (2::rat) ^ floorlog 2 (nat n)" using assms by simp
  show "0 < floorlog 2 (nat n)" using p by (simp add: floorlog_def)
qed

lemma ilog2_bounds:
  assumes "x \<noteq> 0"
  shows "2 powi (ilog2 x) \<le> \<bar>x\<bar>" and "\<bar>x\<bar> < 2 powi (ilog2 x + 1)"
proof -
  obtain p q where pq: "quotient_of \<bar>x\<bar> = (p, q)" by (cases "quotient_of \<bar>x\<bar>")
  have q: "0 < q" using pq by (rule quotient_of_denom_pos)
  have x: "\<bar>x\<bar> = of_int p / of_int q" using pq by (rule quotient_of_div)
  have "0 < \<bar>x\<bar>" using assms by simp
  then have p: "0 < p" using q unfolding x by (simp add: zero_less_divide_iff)
  define bp where "bp = floorlog 2 (nat p)"
  define bq where "bq = floorlog 2 (nat q)"
  define d where "d = int bp - int bq"
  note P = floorlog_pos_bounds[OF p, folded bp_def]
  note Q = floorlog_pos_bounds[OF q, folded bq_def]
  have qpos: "(0::rat) < of_int q" using q by simp
  have up: "\<bar>x\<bar> < 2 powi (d + 1)"
  proof -
    have "of_int p * (2::rat) ^ (bq - 1) < 2 ^ bp * of_int q"
      using P(2) Q(1) p q
      by (intro mult_less_le_imp_less) simp_all
    then have "of_int p / of_int q < (2::rat) ^ bp / 2 ^ (bq - 1)"
      using qpos by (simp add: field_simps)
    also have "(2::rat) ^ bp / 2 ^ (bq - 1) = 2 powi (int bp - int (bq - 1))"
      by (simp add: power_int_diff)
    also have "int bp - int (bq - 1) = d + 1" using Q(3) by (simp add: d_def)
    finally show ?thesis unfolding x .
  qed
  have lo: "2 powi (d - 1) \<le> \<bar>x\<bar>"
  proof -
    have "(2::rat) ^ (bp - 1) * of_int q \<le> of_int p * 2 ^ bq"
      using P(1) Q(2) p q
      by (intro mult_mono) simp_all
    then have "(2::rat) ^ (bp - 1) / 2 ^ bq \<le> of_int p / of_int q"
      using qpos by (simp add: field_simps)
    moreover have "(2::rat) ^ (bp - 1) / 2 ^ bq = 2 powi (int (bp - 1) - int bq)"
      by (simp add: power_int_diff)
    moreover have "int (bp - 1) - int bq = d - 1" using P(3) by (simp add: d_def)
    ultimately show ?thesis unfolding x by simp
  qed
  have e: "ilog2 x = (if 2 powi d \<le> \<bar>x\<bar> then d else d - 1)"
    by (simp add: ilog2_def pq Let_def d_def bp_def bq_def)
  show "2 powi (ilog2 x) \<le> \<bar>x\<bar>" using lo by (simp add: e)
  show "\<bar>x\<bar> < 2 powi (ilog2 x + 1)" using up by (auto simp: e)
qed

lemma ilog2_eqI:
  assumes lo: "2 powi e \<le> \<bar>x\<bar>" and up: "\<bar>x\<bar> < 2 powi (e + 1)"
  shows "ilog2 x = e"
proof -
  have pos: "(0::rat) < 2 powi e" by simp
  have nz: "x \<noteq> 0"
  proof
    assume "x = 0"
    with lo have "(2::rat) powi e \<le> 0" by simp
    with pos show False by linarith
  qed
  note b = ilog2_bounds[OF nz]
  have "2 powi e < (2::rat) powi (ilog2 x + 1)" using lo b(2) by simp
  then have 1: "e < ilog2 x + 1"
    by (metis linorder_not_less power_int_increasing one_le_numeral)
  have "2 powi (ilog2 x) < (2::rat) powi (e + 1)" using up b(1) by simp
  then have 2: "ilog2 x < e + 1"
    by (metis linorder_not_less power_int_increasing one_le_numeral)
  from 1 2 show ?thesis by simp
qed

lemma ilog2_minus [simp]: "ilog2 (- x) = ilog2 x"
  by (simp add: ilog2_def)

lemma quantum_minus [simp]: "quantum (- x) = quantum x"
  by (simp add: quantum_def)

lemma quantum_pos [simp]: "0 < quantum x"
  by (simp add: quantum_def)

lemma quantum_nonneg [simp]: "0 \<le> quantum x"
  by (simp add: quantum_def less_imp_le)

lemma roundHalfEven_cases:
  "roundHalfEven n = \<lfloor>n\<rfloor> \<or> roundHalfEven n = \<lfloor>n\<rfloor> + 1"
  by (simp add: roundHalfEven_def Let_def)

lemma roundHalfEven_of_int [simp]: "roundHalfEven (of_int k) = k"
  by (simp add: roundHalfEven_def)

lemma roundHalfEven_ge_floor: "\<lfloor>n\<rfloor> \<le> roundHalfEven n"
  using roundHalfEven_cases[of n] by auto

lemma roundHalfEven_le_ceiling: "roundHalfEven n \<le> \<lceil>n\<rceil>"
proof (cases "n = of_int \<lfloor>n\<rfloor>")
  case True
  then have "roundHalfEven n = \<lfloor>n\<rfloor>" by (metis roundHalfEven_of_int)
  then show ?thesis by (simp add: floor_le_ceiling)
next
  case False
  then have "\<lceil>n\<rceil> = \<lfloor>n\<rfloor> + 1" by (simp add: ceiling_altdef)
  then show ?thesis using roundHalfEven_cases[of n] by auto
qed

lemma roundHalfEven_mono:
  assumes "n \<le> m"
  shows "roundHalfEven n \<le> roundHalfEven m"
proof (cases "\<lfloor>n\<rfloor> < \<lfloor>m\<rfloor>")
  case True
  have "roundHalfEven n \<le> \<lfloor>n\<rfloor> + 1" using roundHalfEven_cases[of n] by auto
  also have "\<dots> \<le> \<lfloor>m\<rfloor>" using True by simp
  also have "\<dots> \<le> roundHalfEven m" by (rule roundHalfEven_ge_floor)
  finally show ?thesis .
next
  case False
  then have eq: "\<lfloor>n\<rfloor> = \<lfloor>m\<rfloor>" using floor_mono[OF assms] by simp
  have "n - of_int \<lfloor>m\<rfloor> \<le> m - of_int \<lfloor>m\<rfloor>" using assms by simp
  then show ?thesis by (auto simp: roundHalfEven_def Let_def eq)
qed

lemma roundHalfEven_minus: "roundHalfEven (- n) = - roundHalfEven n"
proof (cases "n = of_int \<lfloor>n\<rfloor>")
  case True
  then obtain k where "n = of_int k" ..
  then show ?thesis by (simp flip: of_int_minus)
next
  case False
  then have c: "\<lceil>n\<rceil> = \<lfloor>n\<rfloor> + 1" by (simp add: ceiling_altdef)
  have f: "\<lfloor>- n\<rfloor> = - \<lfloor>n\<rfloor> - 1" using c by (simp add: ceiling_def)
  show ?thesis
    by (auto simp: roundHalfEven_def Let_def f)
qed

lemma nearest_minus: "nearest (- x) = - nearest x"
  by (simp add: nearest_def roundHalfEven_minus)

lemma nearest_nonneg: "0 \<le> x \<Longrightarrow> 0 \<le> nearest x"
proof -
  assume "0 \<le> x"
  then have "0 \<le> x / quantum x" by (intro divide_nonneg_pos) simp_all
  then have "0 \<le> \<lfloor>x / quantum x\<rfloor>" by simp
  then have "0 \<le> roundHalfEven (x / quantum x)"
    using roundHalfEven_ge_floor[of "x / quantum x"] by linarith
  then show ?thesis by (simp add: nearest_def)
qed

lemma nearest_mono_pos:
  assumes x: "0 < x" and le: "x \<le> y"
  shows "nearest x \<le> nearest y"
proof -
  have y: "0 < y" using x le by simp
  define ex where "ex = max (ilog2 x) (- 1022)"
  define ey where "ey = max (ilog2 y) (- 1022)"
  have qx: "quantum x = 2 powi (ex - 52)" and qy: "quantum y = 2 powi (ey - 52)"
    by (simp_all add: quantum_def ex_def ey_def)
  have nx: "nearest x = of_int (roundHalfEven (x / quantum x)) * quantum x"
    and ny: "nearest y = of_int (roundHalfEven (y / quantum y)) * quantum y"
    using x y by (simp_all add: nearest_def)
  have lxy: "ilog2 x \<le> ilog2 y"
  proof (rule ccontr)
    assume "\<not> ilog2 x \<le> ilog2 y"
    then have "ilog2 y + 1 \<le> ilog2 x" by simp
    then have "(2::rat) powi (ilog2 y + 1) \<le> 2 powi (ilog2 x)"
      by (intro power_int_increasing) simp_all
    with ilog2_bounds[of x] ilog2_bounds[of y] x y le show False by simp
  qed
  then have exy: "ex \<le> ey" by (simp add: ex_def ey_def)
  show ?thesis
  proof (cases "ex = ey")
    case True
    then have q: "quantum y = quantum x" by (simp add: qx qy)
    have "x / quantum x \<le> y / quantum x"
      using le by (intro divide_right_mono) (simp_all add: less_imp_le)
    then have "roundHalfEven (x / quantum x) \<le> roundHalfEven (y / quantum x)"
      by (rule roundHalfEven_mono)
    then show ?thesis unfolding nx ny q by (simp add: mult_right_mono)
  next
    case False
    then have lt: "ex < ey" using exy by simp
    then have ey: "ey = ilog2 y" by (auto simp: ex_def ey_def)
    have xup: "x < 2 powi (ex + 1)"
    proof -
      have "x < 2 powi (ilog2 x + 1)" using ilog2_bounds(2)[of x] x by simp
      also have "\<dots> \<le> 2 powi (ex + 1)"
        by (intro power_int_increasing) (simp_all add: ex_def)
      finally show ?thesis .
    qed
    have ylo: "2 powi ey \<le> y" using ilog2_bounds(1)[of y] y by (simp add: ey)
    have a: "nearest x \<le> 2 powi (ex + 1)"
    proof -
      have "x / quantum x < 2 powi (ex + 1) / 2 powi (ex - 52)"
        unfolding qx using xup by (simp add: divide_strict_right_mono)
      also have "(2::rat) powi (ex + 1) / 2 powi (ex - 52) = 2 powi 53"
        by (simp flip: power_int_diff)
      finally have "x / quantum x \<le> of_int (2 ^ 53)" by simp
      then have "\<lceil>x / quantum x\<rceil> \<le> 2 ^ 53" by (simp only: ceiling_le_iff)
      then have "roundHalfEven (x / quantum x) \<le> 2 ^ 53"
        using roundHalfEven_le_ceiling[of "x / quantum x"] by linarith
      then have "(of_int (roundHalfEven (x / quantum x)) :: rat) \<le> of_int (2 ^ 53)"
        by (simp only: of_int_le_iff)
      then have "nearest x \<le> of_int (2 ^ 53) * quantum x"
        unfolding nx by (intro mult_right_mono) simp_all
      also have "of_int (2 ^ 53) * quantum x = 2 powi 53 * 2 powi (ex - 52)"
        by (simp add: qx)
      also have "\<dots> = 2 powi (ex + 1)"
        using power_int_add[of "2::rat" 53 "ex - 52"] by (simp add: add.commute)
      finally show ?thesis .
    qed
    have b: "2 powi ey \<le> nearest y"
    proof -
      have "2 powi ey / 2 powi (ey - 52) \<le> y / quantum y"
        unfolding qy using ylo by (simp add: divide_right_mono)
      moreover have "(2::rat) powi ey / 2 powi (ey - 52) = 2 powi 52"
        by (simp flip: power_int_diff)
      ultimately have "of_int (2 ^ 52) \<le> y / quantum y" by simp
      then have "2 ^ 52 \<le> \<lfloor>y / quantum y\<rfloor>" by (simp only: le_floor_iff)
      then have "2 ^ 52 \<le> roundHalfEven (y / quantum y)"
        using roundHalfEven_ge_floor[of "y / quantum y"] by linarith
      then have "(of_int (2 ^ 52) :: rat) \<le> of_int (roundHalfEven (y / quantum y))"
        by (simp only: of_int_le_iff)
      then have "of_int (2 ^ 52) * quantum y \<le> nearest y"
        unfolding ny by (intro mult_right_mono) simp_all
      moreover have "of_int (2 ^ 52) * quantum y = 2 powi 52 * 2 powi (ey - 52)"
        by (simp add: qy)
      moreover have "(2::rat) powi 52 * 2 powi (ey - 52) = 2 powi ey"
        using power_int_add[of "2::rat" 52 "ey - 52"] by (simp add: add.commute)
      ultimately show ?thesis by simp
    qed
    have "(2::rat) powi (ex + 1) \<le> 2 powi ey"
      using lt by (intro power_int_increasing) simp_all
    with a b show ?thesis by simp
  qed
qed

lemma nearest_mono: "x \<le> y \<Longrightarrow> nearest x \<le> nearest y"
proof -
  assume le: "x \<le> y"
  consider "0 < x" | "x \<le> 0" "0 \<le> y" | "y < 0" by linarith
  then show ?thesis
  proof cases
    case 1
    then show ?thesis using le by (rule nearest_mono_pos)
  next
    case 2
    have "nearest x \<le> 0" using nearest_nonneg[of "- x"] 2(1) by (simp add: nearest_minus)
    also have "0 \<le> nearest y" using 2(2) by (rule nearest_nonneg)
    finally show ?thesis .
  next
    case 3
    then have "0 < - y" "- y \<le> - x" using le by simp_all
    then have "nearest (- y) \<le> nearest (- x)" by (rule nearest_mono_pos)
    then show ?thesis by (simp add: nearest_minus)
  qed
qed


lemma nearest_zero [simp]: "nearest 0 = 0"
  by (simp add: nearest_def)

lemma double_of_zero [simp]: "double_of 0 = Fin 0"
  by (simp add: double_of_def)

lemma isDouble_iff: "isDouble x \<longleftrightarrow> nearest x = x \<and> \<bar>x\<bar> < 2 ^ 1024"
  by (auto simp: isDouble_def double_of_def Let_def)

lemma isDouble_zero [simp]: "isDouble 0"
  by (simp add: isDouble_def)

lemma nearest_at:
  assumes "2 powi ex \<le> \<bar>x\<bar>" "\<bar>x\<bar> < 2 powi (ex + 1)" "- 1022 \<le> ex"
  shows "nearest x = of_int (roundHalfEven (x / 2 powi (ex - 52))) * 2 powi (ex - 52)"
proof -
  have "ilog2 x = ex" using assms(1,2) by (rule ilog2_eqI)
  moreover have "0 < (2::rat) powi ex" by simp
  with assms(1) have "0 < \<bar>x\<bar>" by linarith
  then have "x \<noteq> 0" by auto
  ultimately show ?thesis using assms(3) by (simp add: nearest_def quantum_def max_def)
qed

lemma nearest_pow2:
  assumes "- 1022 \<le> k"
  shows "nearest (2 powi k) = 2 powi k"
proof -
  have "(2::rat) powi k / 2 powi (k - 52) = 2 powi 52"
    by (simp add: power_int_diff)
  also have "\<dots> = of_int (2 ^ 52)" by simp
  finally have q: "(2::rat) powi k / 2 powi (k - 52) = of_int (2 ^ 52)" .
  have "nearest (2 powi k) = of_int (roundHalfEven (2 powi k / 2 powi (k - 52))) * 2 powi (k - 52)"
    by (rule nearest_at) (use assms in \<open>auto simp: power_int_add\<close>)
  also have "\<dots> = 2 powi 52 * 2 powi (k - 52)"
    unfolding q roundHalfEven_of_int by simp
  also have "\<dots> = 2 powi k"
    using power_int_add[of "2::rat" 52 "k - 52"] by simp
  finally show ?thesis .
qed

lemma nearest_abs_le:
  assumes "\<bar>x\<bar> \<le> 2 powi k" "- 1022 \<le> k"
  shows "\<bar>nearest x\<bar> \<le> 2 powi k"
proof -
  have "nearest x \<le> nearest (2 powi k)" "nearest (- (2 powi k)) \<le> nearest x"
    using assms(1) by (auto intro!: nearest_mono)
  then show ?thesis
    using nearest_pow2[OF assms(2)] by (simp add: nearest_minus abs_le_iff)
qed

lemma double_of_at:
  assumes "2 powi ex \<le> \<bar>x\<bar>" "\<bar>x\<bar> < 2 powi (ex + 1)" "- 1022 \<le> ex" "ex < 1023"
  shows "double_of x = Fin (of_int (roundHalfEven (x / 2 powi (ex - 52))) * 2 powi (ex - 52))"
proof -
  have "\<bar>nearest x\<bar> \<le> 2 powi (ex + 1)"
    using assms by (intro nearest_abs_le) auto
  also have "(2::rat) powi (ex + 1) \<le> 2 powi 1023"
    using assms(4) by (intro power_int_increasing) auto
  also have "\<dots> < (2::rat) ^ 1024"
    by simp
  finally have "\<bar>nearest x\<bar> < 2 ^ 1024" .
  then have "double_of x = Fin (nearest x)"
    by (auto simp: double_of_def Let_def abs_less_iff)
  then show ?thesis
    using nearest_at[OF assms(1-3)] by simp
qed

lemma isDouble_between:
  assumes "isDouble a" "isDouble b" "a \<le> x" "x \<le> b"
  shows "double_of x = Fin (nearest x) \<and> a \<le> nearest x \<and> nearest x \<le> b"
proof -
  have a: "nearest a = a" "\<bar>a\<bar> < 2 ^ 1024" and b: "nearest b = b" "\<bar>b\<bar> < 2 ^ 1024"
    using assms(1,2) by (simp_all add: isDouble_iff)
  have "nearest a \<le> nearest x" "nearest x \<le> nearest b"
    using assms(3,4) by (auto intro: nearest_mono)
  then have le: "a \<le> nearest x" "nearest x \<le> b"
    using a b by simp_all
  then have "\<bar>nearest x\<bar> < 2 ^ 1024"
    using a(2) b(2) by linarith
  then have "double_of x = Fin (nearest x)"
    by (auto simp: double_of_def Let_def abs_less_iff)
  then show ?thesis using le by simp
qed

lemma isDouble_int:
  assumes "\<bar>n\<bar> \<le> 2 ^ 53"
  shows "isDouble (of_int n)"
proof (cases "n = 0")
  case True
  then show ?thesis by simp
next
  case False
  define x :: rat where "x = of_int n"
  define ex where "ex = ilog2 x"
  have nz: "x \<noteq> 0" using False by (simp add: x_def)
  have b: "2 powi ex \<le> \<bar>x\<bar>" "\<bar>x\<bar> < 2 powi (ex + 1)"
    using ilog2_bounds[OF nz] by (simp_all add: ex_def)
  have one: "1 \<le> \<bar>x\<bar>" using False by (simp add: x_def flip: of_int_abs)
  have le: "\<bar>x\<bar> \<le> 2 ^ 53"
  proof -
    have "(of_int \<bar>n\<bar> :: rat) \<le> of_int (2 ^ 53)"
      using assms by (simp only: of_int_le_iff)
    then show ?thesis by (simp add: x_def)
  qed
  have ex0: "0 \<le> ex"
  proof (rule ccontr)
    assume "\<not> 0 \<le> ex"
    then have "ex + 1 \<le> 0" by simp
    then have "(2::rat) powi (ex + 1) \<le> 2 powi 0"
      by (intro power_int_increasing) auto
    then show False using b(2) one by simp
  qed
  have ex53: "ex \<le> 53"
  proof (rule ccontr)
    assume "\<not> ex \<le> 53"
    then have "54 \<le> ex" by simp
    then have "(2::rat) powi 54 \<le> 2 powi ex"
      by (intro power_int_increasing) auto
    then show False using b(1) le by simp
  qed
  have near: "nearest x = of_int (roundHalfEven (x / 2 powi (ex - 52))) * 2 powi (ex - 52)"
    using b ex0 by (intro nearest_at) auto
  have "nearest x = x"
  proof (cases "ex \<le> 52")
    case True
    define k where "k = nat (52 - ex)"
    have p: "(2::rat) powi (ex - 52) = inverse (2 ^ k)"
    proof -
      have "ex - 52 = - int k" using True by (simp add: k_def)
      then show ?thesis by (simp add: power_int_minus)
    qed
    have q: "x / 2 powi (ex - 52) = of_int (n * 2 ^ k)"
      unfolding p by (simp add: x_def divide_inverse)
    have r: "roundHalfEven (x / 2 powi (ex - 52)) = n * 2 ^ k"
      unfolding q by (rule roundHalfEven_of_int)
    show ?thesis unfolding near r by (simp add: p x_def)
  next
    case False
    then have e: "ex = 53" using ex53 by simp
    have "(2::rat) ^ 53 \<le> \<bar>x\<bar>" using b(1) by (simp add: e)
    then have "(of_int (2 ^ 53) :: rat) \<le> of_int \<bar>n\<bar>" by (simp add: x_def)
    then have "2 ^ 53 \<le> \<bar>n\<bar>" by (simp only: of_int_le_iff)
    then consider "n = 2 ^ 53" | "n = - (2 ^ 53)" using assms by linarith
    then show ?thesis
    proof cases
      case 1
      have q: "x / 2 powi (ex - 52) = of_int (2 ^ 52)" by (simp add: e x_def 1)
      have r: "roundHalfEven (x / 2 powi (ex - 52)) = 2 ^ 52"
        unfolding q by (rule roundHalfEven_of_int)
      show ?thesis unfolding near r by (simp add: e x_def 1)
    next
      case 2
      have q: "x / 2 powi (ex - 52) = of_int (- (2 ^ 52))" by (simp add: e x_def 2)
      have r: "roundHalfEven (x / 2 powi (ex - 52)) = - (2 ^ 52)"
        unfolding q by (rule roundHalfEven_of_int)
      show ?thesis unfolding near r by (simp add: e x_def 2)
    qed
  qed
  moreover have "\<bar>x\<bar> < 2 ^ 1024"
  proof -
    have "(2::rat) ^ 53 < 2 ^ 1024" by (rule power_strict_increasing) auto
    then show ?thesis using le by linarith
  qed
  ultimately show ?thesis by (simp add: isDouble_iff x_def)
qed

lemma isDouble_numeral: "numeral k \<le> (2 ^ 53 :: int) \<Longrightarrow> isDouble (numeral k)"
  using isDouble_int[of "numeral k"] by simp

lemma isDouble_one [simp]: "isDouble 1"
  using isDouble_int[of 1] by simp

lemma floor_rat_numeral [simp]:
  "\<lfloor>(numeral a :: rat) / numeral b\<rfloor> = numeral a div numeral b"
  using floor_divide_of_int_eq[where 'a = rat, of "numeral a" "numeral b"] by simp

lemma floor_rat_neg_numeral [simp]:
  "\<lfloor>- (numeral a :: rat) / numeral b\<rfloor> = - numeral a div numeral b"
  using floor_divide_of_int_eq[where 'a = rat, of "- numeral a" "numeral b"] by simp

section \<open>The walk of \<^verbatim>\<open>estimateMarketOrderPrice\<close>\<close>

lemma double_of_isDouble: "isDouble x \<Longrightarrow> double_of x = Fin x"
  by (simp add: isDouble_def)

lemma dgt_Fin [simp]: "dgt (Fin x) (Fin y) = (y < x)"
  by (auto simp: dgt_def)

lemma dsub_Fin [simp]: "dsub (Fin x) (Fin y) = double_of (x - y)"
  by (simp add: dsub_def)

lemma walk_step_gen:
  assumes "min r (sz a) = m" "isDouble (r - m)"
  shows "fst (walk (a # os) (Fin r) c) =
           (if r - m \<le> 0 then Fin (r - m)
            else fst (walk os (Fin (r - m)) (dadd c (dmul (Fin m) (Fin (price a))))))"
  unfolding walk.simps dmin.simps Let_def assms(1)
  using assms(2) by (simp add: double_of_isDouble)

lemma walk_step_exact_gen:
  assumes "min r (sz a) = m" "isDouble (r - m)" "isDouble (m * price a)"
    "isDouble (t + m * price a)"
  shows "walk (a # os) (Fin r) (Fin t) =
           (if r - m \<le> 0 then (Fin (r - m), Fin (t + m * price a))
            else walk os (Fin (r - m)) (Fin (t + m * price a)))"
  unfolding walk.simps dmin.simps Let_def assms(1)
  using assms(2-) by (simp add: double_of_isDouble)

lemmas walk_step = walk_step_gen[OF refl]

lemmas walk_step_exact = walk_step_exact_gen[OF refl]

lemma consumed_nonpos: "r \<le> 0 \<Longrightarrow> consumed os r = []"
  by (cases os) simp_all

lemma consumed_nonempty: "0 < r \<Longrightarrow> os \<noteq> [] \<Longrightarrow> consumed os r \<noteq> []"
  by (cases os) simp_all

lemma walk_consumed:
  "0 < r \<Longrightarrow> (\<forall>x\<in>set os. 0 < sz x) \<Longrightarrow> r \<le> available os \<Longrightarrow>
   exactRemainders os r \<Longrightarrow> exactCosts os r t \<Longrightarrow>
   walk os (Fin r) (Fin t) = (Fin 0, Fin (t + (\<Sum>(order, q) \<leftarrow> consumed os r. q * price order)))"
proof (induction os arbitrary: r t)
  case Nil
  then show ?case by (simp add: available_def)
next
  case (Cons a os)
  have st: "isDouble (r - min r (sz a))" "isDouble (min r (sz a) * price a)"
    "isDouble (t + min r (sz a) * price a)"
    using Cons.prems(4,5) by simp_all
  show ?case
  proof (cases "r \<le> sz a")
    case True
    then show ?thesis
      using Cons.prems(1) unfolding walk_step_exact[OF st]
      by (simp add: consumed_nonpos min_def)
  next
    case False
    then have m: "min r (sz a) = sz a" by (simp add: min_def)
    have 1: "0 < r - sz a" "r - sz a \<le> available os"
      using False Cons.prems by (auto simp: available_def)
    have 2: "\<forall>x\<in>set os. 0 < sz x" using Cons.prems(2) by simp
    have 3: "exactRemainders os (r - sz a)" "exactCosts os (r - sz a) (t + sz a * price a)"
      using Cons.prems(4,5) 1(1) by (simp_all add: m)
    have "walk (a # os) (Fin r) (Fin t) = walk os (Fin (r - sz a)) (Fin (t + sz a * price a))"
      unfolding walk_step_exact[OF st] using 1(1) by (simp add: m)
    also have "\<dots> = (Fin 0, Fin (t + sz a * price a
                      + (\<Sum>(order, q) \<leftarrow> consumed os (r - sz a). q * price order)))"
      by (rule Cons.IH[OF 1(1) 2 1(2) 3])
    finally show ?thesis using Cons.prems(1) by (simp add: m add.assoc)
  qed
qed

lemma consumed_total:
  "0 < r \<Longrightarrow> (\<forall>x\<in>set os. 0 < sz x) \<Longrightarrow> r \<le> available os \<Longrightarrow>
   (\<Sum>(order, q) \<leftarrow> consumed os r. q) = r"
proof (induction os arbitrary: r)
  case Nil
  then show ?case by (simp add: available_def)
next
  case (Cons a os)
  show ?case
  proof (cases "r \<le> sz a")
    case True
    then show ?thesis using Cons.prems by (simp add: consumed_nonpos min_def)
  next
    case False
    then have "0 < r - sz a" "r - sz a \<le> available os"
      using Cons.prems by (auto simp: available_def)
    from Cons.IH[OF this(1) _ this(2)] Cons.prems False
    show ?thesis by (simp add: min_def)
  qed
qed

lemma consumed_pos:
  "(\<forall>x\<in>set os. 0 < sz x) \<Longrightarrow> (order, q) \<in> set (consumed os r) \<Longrightarrow> 0 < q"
  by (induction os arbitrary: r) (auto split: if_splits)

lemma weighted_lower:
  "(\<forall>(order, q) \<in> set xs. 0 \<le> q \<and> lo \<le> price order) \<Longrightarrow>
   lo * (\<Sum>(order, q) \<leftarrow> xs. q) \<le> (\<Sum>(order, q) \<leftarrow> xs. q * price order)"
  by (induction xs) (auto simp: distrib_left mult.commute intro!: add_mono mult_left_mono)

lemma weighted_upper:
  "(\<forall>(order, q) \<in> set xs. 0 \<le> q \<and> price order \<le> hi) \<Longrightarrow>
   (\<Sum>(order, q) \<leftarrow> xs. q * price order) \<le> hi * (\<Sum>(order, q) \<leftarrow> xs. q)"
  by (induction xs) (auto simp: distrib_left mult.commute intro!: add_mono mult_left_mono)

lemma weighted_between:
  assumes pos: "\<forall>x\<in>set orders. 0 < sz x"
    and req: "0 < reqSize"
    and avail: "reqSize \<le> available orders"
  shows "consumedPrices orders reqSize \<noteq> {}"
    and "Min (consumedPrices orders reqSize) \<le> consumedCost orders reqSize / reqSize"
    and "consumedCost orders reqSize / reqSize \<le> Max (consumedPrices orders reqSize)"
proof -
  let ?cs = "consumed orders reqSize"
  let ?P = "consumedPrices orders reqSize"
  have "orders \<noteq> []" using req avail by (auto simp: available_def)
  then show ne: "?P \<noteq> {}" using consumed_nonempty[OF req] by (simp add: consumedPrices_def)
  have fin: "finite ?P" by (simp add: consumedPrices_def)
  have tot: "(\<Sum>(order, q) \<leftarrow> ?cs. q) = reqSize" by (rule consumed_total[OF req pos avail])
  have lo: "\<forall>(order, q) \<in> set ?cs. 0 \<le> q \<and> Min ?P \<le> price order"
  proof (clarify, rule conjI)
    fix order q assume m: "(order, q) \<in> set ?cs"
    show "0 \<le> q" using consumed_pos[OF pos m] by simp
    have "price order \<in> ?P" using m by (force simp: consumedPrices_def)
    then show "Min ?P \<le> price order" using fin by simp
  qed
  have hi: "\<forall>(order, q) \<in> set ?cs. 0 \<le> q \<and> price order \<le> Max ?P"
  proof (clarify, rule conjI)
    fix order q assume m: "(order, q) \<in> set ?cs"
    show "0 \<le> q" using consumed_pos[OF pos m] by simp
    have "price order \<in> ?P" using m by (force simp: consumedPrices_def)
    then show "price order \<le> Max ?P" using fin by simp
  qed
  have l: "Min ?P * reqSize \<le> consumedCost orders reqSize"
    using weighted_lower[OF lo] by (simp add: tot consumedCost_def)
  have h: "consumedCost orders reqSize \<le> Max ?P * reqSize"
    using weighted_upper[OF hi] by (simp add: tot consumedCost_def)
  from l h req show "Min ?P \<le> consumedCost orders reqSize / reqSize"
    "consumedCost orders reqSize / reqSize \<le> Max ?P"
    by (simp_all add: pos_le_divide_eq pos_divide_le_eq)
qed

lemma consumedPrices_subset: "consumedPrices os r \<subseteq> price ` set os"
proof -
  have "fst ` set (consumed os r) \<subseteq> set os" for r
    by (induction os arbitrary: r) (auto split: if_splits)
  then show ?thesis by (force simp: consumedPrices_def)
qed

text \<open>
  C9, as the code has it. For a list of orders with positive sizes whose prices are
  doubles, and a requested size that is positive and at most the total size of the
  list: when no subtraction, product or sum of the walk rounds,
  \<^verbatim>\<open>estimateMarketOrderPrice\<close> returns the double nearest to the sum, over the levels
  consumed front to back, of the quantity taken (the minimum of what remains and the
  level's size) times the level's price, divided by the requested size; the quotient
  and the returned value lie between the least and the greatest price among the
  consumed levels.
\<close>

theorem estimate_weighted_average:
  assumes pos: "\<forall>x\<in>set orders. 0 < sz x"
    and dbl: "\<forall>x\<in>set orders. isDouble (price x)"
    and req: "0 < reqSize"
    and avail: "reqSize \<le> available orders"
    and rem: "exactRemainders orders reqSize"
    and cost: "exactCosts orders reqSize 0"
  shows "estimateMarketOrderPrice orders (Fin reqSize) sd
           = Inr (Fin (nearest (consumedCost orders reqSize / reqSize)))
       \<and> consumedPrices orders reqSize \<noteq> {}
       \<and> Min (consumedPrices orders reqSize) \<le> consumedCost orders reqSize / reqSize
       \<and> consumedCost orders reqSize / reqSize \<le> Max (consumedPrices orders reqSize)
       \<and> Min (consumedPrices orders reqSize) \<le> nearest (consumedCost orders reqSize / reqSize)
       \<and> nearest (consumedCost orders reqSize / reqSize) \<le> Max (consumedPrices orders reqSize)"
proof -
  let ?P = "consumedPrices orders reqSize"
  let ?q = "consumedCost orders reqSize / reqSize"
  have w: "walk orders (Fin reqSize) (Fin 0) = (Fin 0, Fin (consumedCost orders reqSize))"
    using walk_consumed[OF req pos avail rem cost] by (simp add: consumedCost_def)
  have b: "?P \<noteq> {}" "Min ?P \<le> ?q" "?q \<le> Max ?P"
    by (rule weighted_between[OF pos req avail])+
  have fin: "finite ?P" by (simp add: consumedPrices_def)
  have "Min ?P \<in> ?P" "Max ?P \<in> ?P" using fin b(1) by simp_all
  then have "Min ?P \<in> price ` set orders" "Max ?P \<in> price ` set orders"
    using consumedPrices_subset by blast+
  then have d: "isDouble (Min ?P)" "isDouble (Max ?P)" using dbl by auto
  have r: "double_of ?q = Fin (nearest ?q) \<and> Min ?P \<le> nearest ?q \<and> nearest ?q \<le> Max ?P"
    by (rule isDouble_between[OF d b(2,3)])
  have est: "estimateMarketOrderPrice orders (Fin reqSize) sd = Inr (Fin (nearest ?q))"
    using req r by (simp add: estimateMarketOrderPrice_def w)
  show ?thesis using est b r by simp
qed

theorem estimate_weighted_average_witness:
  "(0::rat) < 4 \<and> 4 \<le> available book1
   \<and> exactRemainders book1 4 \<and> exactCosts book1 4 0
   \<and> estimateMarketOrderPrice book1 (Fin 4) ''buy'' = Inr (Fin 11)
   \<and> consumedCost book1 4 = 44
   \<and> consumedPrices book1 4 = {10, 12}"
proof -
  have a: "\<forall>x\<in>set book1. 0 < sz x" by (simp add: book1_def)
  have a': "\<forall>x\<in>set book1. isDouble (price x)" by (simp add: book1_def isDouble_numeral)
  have b: "4 \<le> available book1" by (simp add: book1_def available_def)
  have c: "consumedCost book1 4 = 44" by (simp add: book1_def consumedCost_def)
  have d: "consumedPrices book1 4 = {10, 12}" by (simp add: book1_def consumedPrices_def)
  have e: "exactRemainders book1 4" by (simp add: book1_def isDouble_numeral)
  have f: "exactCosts book1 4 0" by (simp add: book1_def isDouble_numeral)
  have g: "nearest 11 = 11" using isDouble_numeral[of "num.Bit1 (num.Bit1 (num.Bit0 num.One))"]
    by (simp add: isDouble_iff)
  show ?thesis using estimate_weighted_average[OF a a' _ b e f, of "''buy''"] b c d e f g by simp
qed

theorem estimate_rounding_counterexample:
  "(0::rat) < 3 \<and> 3 \<le> available tenthBook \<and> isDouble tenth
   \<and> consumedPrices tenthBook 3 = {tenth}
   \<and> consumedCost tenthBook 3 / 3 = tenth
   \<and> estimateMarketOrderPrice tenthBook (Fin 3) ''buy''
       = Inr (Fin (7205759403792795 / 72057594037927936))
   \<and> tenth < 7205759403792795 / 72057594037927936"
proof -
  have t: "double_of (3602879701896397 / 36028797018963968)
             = Fin (3602879701896397 / 36028797018963968)"
    by (subst double_of_at[where ex = "- 4"]) (simp_all add: roundHalfEven_def Let_def)
  have p: "double_of (10808639105689191 / 36028797018963968)
             = Fin (1351079888211149 / 4503599627370496)"
    by (subst double_of_at[where ex = "- 2"]) (simp_all add: roundHalfEven_def Let_def)
  have s: "double_of (1351079888211149 / 4503599627370496)
             = Fin (1351079888211149 / 4503599627370496)"
    by (subst double_of_at[where ex = "- 2"]) (simp_all add: roundHalfEven_def Let_def)
  have q: "double_of (1351079888211149 / 13510798882111488)
             = Fin (7205759403792795 / 72057594037927936)"
    by (subst double_of_at[where ex = "- 4"]) (simp_all add: roundHalfEven_def Let_def)
  have e: "estimateMarketOrderPrice tenthBook (Fin 3) ''buy''
       = Inr (Fin (7205759403792795 / 72057594037927936))"
    by (simp add: estimateMarketOrderPrice_def tenthBook_def tenth_def Let_def p s q)
  show ?thesis
    using e t by (simp add: tenthBook_def available_def consumedPrices_def consumedCost_def
        isDouble_def tenth_def)
qed

lemma walk_remainder:
  "(\<forall>x\<in>set os. 0 \<le> sz x) \<Longrightarrow> exactRemainders os r \<Longrightarrow>
   \<exists>r'. fst (walk os (Fin r) c) = Fin r' \<and> (0 < r') = (available os < r)"
proof (induction os arbitrary: r c)
  case Nil
  then show ?case by (simp add: available_def)
next
  case (Cons a os)
  have st: "isDouble (r - min r (sz a))" using Cons.prems(2) by simp
  show ?case
  proof (cases "r \<le> sz a")
    case True
    have "0 \<le> sum_list (map sz os)" using Cons.prems(1) by (intro sum_list_nonneg) auto
    with True have "r \<le> available (a # os)" by (simp add: available_def)
    with True show ?thesis unfolding walk_step[OF st] by (simp add: min_def)
  next
    case False
    then have m: "min r (sz a) = sz a" by (simp add: min_def)
    have 1: "\<forall>x\<in>set os. 0 \<le> sz x" using Cons.prems(1) by simp
    have 2: "exactRemainders os (r - sz a)" using Cons.prems(2) False by (simp add: m)
    obtain r' where r': "fst (walk os (Fin (r - sz a)) (dadd c (dmul (Fin (sz a)) (Fin (price a))))) = Fin r'"
      "(0 < r') = (available os < r - sz a)"
      using Cons.IH[OF 1 2] by blast
    have "fst (walk (a # os) (Fin r) c) = Fin r'"
      unfolding walk_step[OF st] using False r'(1) by (simp add: m)
    moreover have "(0 < r') = (available (a # os) < r)"
      using r'(2) by (auto simp: available_def)
    ultimately show ?thesis by blast
  qed
qed

lemma walk_zero:
  "(\<forall>x\<in>set os. 0 \<le> sz x) \<Longrightarrow> walk os (Fin 0) (Fin 0) = (Fin 0, Fin 0)"
  by (cases os) (simp_all add: Let_def)

text \<open>
  C10, as the code has it. On a list of levels (sizes are quantities, not negative)
  and a requested size whose remainders the walk computes without rounding,
  \<^verbatim>\<open>estimateMarketOrderPrice\<close> throws exactly when the total size of the list is
  strictly less than the requested size. Whatever the list and the request, the only
  error it throws is the insufficient-liquidity error. On a list of levels a request
  of size 0 does not fail: it returns the quotient \<^verbatim>\<open>0 / 0\<close>, which is \<^verbatim>\<open>NaN\<close>.
\<close>

theorem estimate_guard:
  assumes "\<forall>x\<in>set orders. 0 \<le> sz x"
    and "exactRemainders orders reqSize"
  shows "(estimateMarketOrderPrice orders (Fin reqSize) sd = Inl insufficientLiquidity)
           = (available orders < reqSize)
       \<and> (\<forall>q err. estimateMarketOrderPrice orders q sd = Inl err
                 \<longrightarrow> err = insufficientLiquidity)
       \<and> estimateMarketOrderPrice orders (Fin 0) sd = Inr NaN"
proof -
  obtain r' where r': "fst (walk orders (Fin reqSize) (Fin 0)) = Fin r'"
    "(0 < r') = (available orders < reqSize)"
    using walk_remainder[OF assms] by blast
  then have a: "(estimateMarketOrderPrice orders (Fin reqSize) sd = Inl insufficientLiquidity)
                  = (available orders < reqSize)"
    by (auto simp: estimateMarketOrderPrice_def split: prod.splits)
  have b: "\<forall>q err. estimateMarketOrderPrice orders q sd = Inl err
                \<longrightarrow> err = insufficientLiquidity"
    by (auto simp: estimateMarketOrderPrice_def split: prod.splits if_splits)
  have c: "estimateMarketOrderPrice orders (Fin 0) sd = Inr NaN"
    by (simp add: estimateMarketOrderPrice_def walk_zero[OF assms(1)])
  from a b c show ?thesis by simp
qed

lemma double_of_numeral: "numeral k \<le> (2 ^ 53 :: int) \<Longrightarrow> double_of (numeral k) = Fin (numeral k)"
  using isDouble_numeral[of k] by (simp add: isDouble_def)

lemma double_of_one [simp]: "double_of 1 = Fin 1"
  using isDouble_one by (simp add: isDouble_def)

lemma double_of_minus: "double_of (- x) = dneg (double_of x)"
  by (auto simp: double_of_def Let_def nearest_minus)

theorem estimate_guard_witness:
  "available book1 < 12 \<and> exactRemainders book1 12 \<and> exactRemainders book1 11
   \<and> estimateMarketOrderPrice book1 (Fin 12) ''buy'' = Inl insufficientLiquidity
   \<and> estimateMarketOrderPrice book1 (Fin 11) ''buy'' \<noteq> Inl insufficientLiquidity
   \<and> estimateMarketOrderPrice book1 (Fin 0) ''buy'' = Inr NaN"
proof -
  have a: "\<forall>x\<in>set book1. 0 \<le> sz x" by (simp add: book1_def)
  have b: "available book1 = 11" by (simp add: book1_def available_def)
  have c: "exactRemainders book1 12" by (simp add: book1_def isDouble_numeral)
  have d: "exactRemainders book1 11" by (simp add: book1_def isDouble_numeral)
  show ?thesis
    using estimate_guard[OF a c, of "''buy''"] estimate_guard[OF a d, of "''buy''"] b c d
    by simp
qed

theorem estimate_guard_counterexample:
  "available hugeBook < 9007199254740994
   \<and> estimateMarketOrderPrice hugeBook (Fin 9007199254740994) ''buy''
       = Inr (Fin (4503599627370495 / 4503599627370496))
   \<and> available splitBook = 4503599627370497
   \<and> estimateMarketOrderPrice splitBook (Fin 4503599627370497) ''buy''
       = Inl insufficientLiquidity
   \<and> available mixedBook < 4
   \<and> estimateMarketOrderPrice mixedBook (Fin 4) ''buy'' = Inr (Fin 1)
   \<and> estimateMarketOrderPrice negBook (Fin 0) ''buy'' = Inr PosInf"
proof -
  have h1: "double_of 9007199254740993 = Fin 9007199254740992"
    by (subst double_of_at[where ex = 53]) (simp_all add: roundHalfEven_def Let_def)
  have h2: "double_of (4503599627370496 / 4503599627370497)
              = Fin (4503599627370495 / 4503599627370496)"
    by (subst double_of_at[where ex = "- 1"]) (simp_all add: roundHalfEven_def Let_def)
  have huge: "estimateMarketOrderPrice hugeBook (Fin 9007199254740994) ''buy''
       = Inr (Fin (4503599627370495 / 4503599627370496))"
    by (simp add: estimateMarketOrderPrice_def hugeBook_def Let_def double_of_numeral h1 h2)
  have s1: "double_of (1 / 4) = Fin (1 / 4)"
    by (subst double_of_at[where ex = "- 2"]) (simp_all add: roundHalfEven_def Let_def)
  have s2: "double_of (18014398509481987 / 4) = Fin 4503599627370497"
    by (subst double_of_at[where ex = 52]) (simp_all add: roundHalfEven_def Let_def)
  have s3: "double_of (18014398509481985 / 4) = Fin 4503599627370496"
    by (subst double_of_at[where ex = 52]) (simp_all add: roundHalfEven_def Let_def)
  have s4: "double_of (3 / 4) = Fin (3 / 4)"
    by (subst double_of_at[where ex = "- 1"]) (simp_all add: roundHalfEven_def Let_def)
  have split: "estimateMarketOrderPrice splitBook (Fin 4503599627370497) ''buy''
       = Inl insufficientLiquidity"
    by (simp add: estimateMarketOrderPrice_def splitBook_def Let_def double_of_numeral
        s1 s2 s3 s4)
  have mixed: "estimateMarketOrderPrice mixedBook (Fin 4) ''buy'' = Inr (Fin 1)"
    by (simp add: estimateMarketOrderPrice_def mixedBook_def Let_def double_of_numeral)
  have neg: "estimateMarketOrderPrice negBook (Fin 0) ''buy'' = Inr PosInf"
    by (simp add: estimateMarketOrderPrice_def negBook_def Let_def double_of_numeral
        double_of_minus)
  show ?thesis
    using huge split mixed neg
    by (simp add: available_def hugeBook_def splitBook_def mixedBook_def)
qed

section \<open>Running operations\<close>

lemma return_run [simp]: "return x s = (Inr x, s)"
  by (simp add: return_def)

lemma throw_run [simp]: "throw err s = (Inl err, s)"
  by (simp add: throw_def)

lemma bind_InrE:
  assumes "bind m f s = (Inr y, s'')"
  obtains x s' where "m s = (Inr x, s')" and "f x s' = (Inr y, s'')"
  using assms by (auto simp: bind_def split: prod.splits sum.splits)

lemma bind_InlE:
  assumes "bind m f s = (Inl err, s'')"
  obtains "m s = (Inl err, s'')" | x s' where "m s = (Inr x, s')" and "f x s' = (Inl err, s'')"
  using assms by (auto simp: bind_def split: prod.splits sum.splits)

lemma bind_Inr: "m s = (Inr x, s') \<Longrightarrow> bind m f s = f x s'"
  by (simp add: bind_def)

lemma bind_Inl: "m s = (Inl err, s') \<Longrightarrow> bind m f s = (Inl err, s')"
  by (simp add: bind_def)

lemma try_rethrow_Inr:
  "try_catch m (\<lambda>err. throw (g err)) s = (Inr x, s') \<Longrightarrow> m s = (Inr x, s')"
  by (auto simp: try_catch_def split: prod.splits sum.splits)

lemma sdk_Inr:
  "sdk f c s = (Inr v, s') \<Longrightarrow> f (history s) = Inr v \<and> s' = s\<lparr>history := history s @ [c]\<rparr>"
  by (auto simp: sdk_def split: sum.splits)

section \<open>The snapshot\<close>









section \<open>The cache and the history under the operations\<close>

named_theorems keeps_intros

lemma keepsI:
  assumes "\<And>s. marketCache s \<subseteq>\<^sub>m marketCache (snd (m s))"
    and "\<And>s. \<exists>cs. history (snd (m s)) = history s @ cs \<and> list_all Q cs"
  shows "keeps Q m"
  using assms by (simp add: keeps_def)

lemma keeps_cache: "keeps Q m \<Longrightarrow> marketCache s \<subseteq>\<^sub>m marketCache (snd (m s))"
  by (simp add: keeps_def)

lemma keeps_history:
  "keeps Q m \<Longrightarrow> \<exists>cs. history (snd (m s)) = history s @ cs \<and> list_all Q cs"
  by (simp add: keeps_def)

lemma keeps_return [keeps_intros]: "keeps Q (return x)"
  by (simp add: keeps_def)

lemma keeps_throw [keeps_intros]: "keeps Q (throw err)"
  by (simp add: keeps_def)

lemma keeps_dateNow [keeps_intros]: "keeps Q (dateNow e)"
  by (simp add: keeps_def dateNow_def)

lemma keeps_sdk [keeps_intros]: "Q c \<Longrightarrow> keeps Q (sdk f c)"
  by (simp add: keeps_def sdk_def)

lemma keeps_step:
  assumes m: "keeps Q m" and g: "keeps Q g"
    and r: "m s = (r, s1)"
  shows "marketCache s \<subseteq>\<^sub>m marketCache (snd (g s1))
       \<and> (\<exists>cs. history (snd (g s1)) = history s @ cs \<and> list_all Q cs)"
proof -
  from keeps_cache[OF m, of s] keeps_history[OF m, of s] r
  obtain cs1 where a: "marketCache s \<subseteq>\<^sub>m marketCache s1"
    and b: "history s1 = history s @ cs1" "list_all Q cs1" by auto
  from keeps_cache[OF g, of s1] keeps_history[OF g, of s1]
  obtain cs2 where c: "marketCache s1 \<subseteq>\<^sub>m marketCache (snd (g s1))"
    and d: "history (snd (g s1)) = history s1 @ cs2" "list_all Q cs2" by auto
  from a c have "marketCache s \<subseteq>\<^sub>m marketCache (snd (g s1))" by (rule map_le_trans)
  moreover from b d have "history (snd (g s1)) = history s @ (cs1 @ cs2)" "list_all Q (cs1 @ cs2)"
    by simp_all
  ultimately show ?thesis by blast
qed

lemma keeps_bind [keeps_intros]:
  assumes m: "keeps Q m" and f: "\<And>x. keeps Q (f x)"
  shows "keeps Q (bind m f)"
proof (rule keepsI)
  fix s
  obtain r s1 where r: "m s = (r, s1)" by (cases "m s")
  show "marketCache s \<subseteq>\<^sub>m marketCache (snd (bind m f s))"
  proof (cases r)
    case (Inl err)
    then show ?thesis using keeps_cache[OF m, of s] r by (simp add: bind_def)
  next
    case (Inr x)
    then show ?thesis using keeps_step[OF m f[of x] r] r by (simp add: bind_def)
  qed
  show "\<exists>cs. history (snd (bind m f s)) = history s @ cs \<and> list_all Q cs"
  proof (cases r)
    case (Inl err)
    then show ?thesis using keeps_history[OF m, of s] r by (simp add: bind_def)
  next
    case (Inr x)
    then show ?thesis using keeps_step[OF m f[of x] r] r by (simp add: bind_def)
  qed
qed

lemma keeps_try_catch [keeps_intros]:
  assumes m: "keeps Q m" and f: "\<And>x. keeps Q (f x)"
  shows "keeps Q (try_catch m f)"
proof (rule keepsI)
  fix s
  obtain r s1 where r: "m s = (r, s1)" by (cases "m s")
  show "marketCache s \<subseteq>\<^sub>m marketCache (snd (try_catch m f s))"
  proof (cases r)
    case (Inr x)
    then show ?thesis using keeps_cache[OF m, of s] r by (simp add: try_catch_def)
  next
    case (Inl err)
    then show ?thesis using keeps_step[OF m f[of err] r] r by (simp add: try_catch_def)
  qed
  show "\<exists>cs. history (snd (try_catch m f s)) = history s @ cs \<and> list_all Q cs"
  proof (cases r)
    case (Inr x)
    then show ?thesis using keeps_history[OF m, of s] r by (simp add: try_catch_def)
  next
    case (Inl err)
    then show ?thesis using keeps_step[OF m f[of err] r] r by (simp add: try_catch_def)
  qed
qed

lemma keeps_if [keeps_intros]: "keeps Q a \<Longrightarrow> keeps Q b \<Longrightarrow> keeps Q (if c then a else b)"
  by simp

lemma keeps_case_option [keeps_intros]:
  "keeps Q a \<Longrightarrow> (\<And>x. keeps Q (b x)) \<Longrightarrow> keeps Q (case v of None \<Rightarrow> a | Some x \<Rightarrow> b x)"
  by (cases v) simp_all

lemma keeps_case_prod [keeps_intros]:
  "(\<And>x y. keeps Q (f x y)) \<Longrightarrow> keeps Q (case p of (x, y) \<Rightarrow> f x y)"
  by (cases p) simp

lemma keeps_liftE [keeps_intros]: "keeps Q (liftE v)"
  by (cases v) (simp_all add: liftE_def keeps_intros)

lemma keeps_firstAddress [keeps_intros]: "keeps Q (firstAddress accounts)"
  by (cases accounts) (simp_all add: firstAddress_def keeps_intros)

lemma keeps_getMarket [keeps_intros]:
  assumes "Q (NewPublicKey a)" and "\<And>pk. Q (MarketLoad pk)"
  shows "keeps Q (getMarket e a)"
proof (rule keepsI)
  fix s
  show "marketCache s \<subseteq>\<^sub>m marketCache (snd (getMarket e a s))"
    by (auto simp: getMarket_def getMarket_start_def getMarket_finish_def sdk_def map_le_def
        split: option.splits sum.splits)
  show "\<exists>cs. history (snd (getMarket e a s)) = history s @ cs \<and> list_all Q cs"
    using assms
    by (auto simp: getMarket_def getMarket_start_def getMarket_finish_def sdk_def
        split: option.splits sum.splits)
qed

lemma keeps_getOrderBook [keeps_intros]:
  "Q (NewPublicKey a) \<Longrightarrow> (\<And>pk. Q (MarketLoad pk)) \<Longrightarrow> (\<And>m. Q (LoadBidsAsks m))
   \<Longrightarrow> keeps Q (getOrderBook e a d)"
  unfolding getOrderBook_def Let_def by (intro keeps_intros)

lemma keeps_settleInstructions [keeps_intros]:
  "(\<And>acct. Q (MakeSettleFundsTransaction market acct (publicKey wallet) (publicKey wallet)))
   \<Longrightarrow> keeps Q (settleInstructions e market wallet accounts tx)"
proof (induction accounts arbitrary: tx)
  case Nil
  have "settleInstructions e market wallet [] tx = return tx" by (rule ext) simp
  then show ?case by (simp only: keeps_return)
next
  case (Cons acct rest)
  have "settleInstructions e market wallet (acct # rest) tx =
        bind (sdk (\<lambda>h. makeSettleFundsTransaction e h market acct (publicKey wallet) (publicKey wallet))
               (MakeSettleFundsTransaction market acct (publicKey wallet) (publicKey wallet)))
          (\<lambda>instruction. settleInstructions e market wallet rest (tx @ [instruction]))"
    by (rule ext) (simp add: bind_def split: prod.splits sum.splits)
  then show ?case using Cons by (simp add: keeps_intros)
qed

lemma keeps_collectOrders [keeps_intros]:
  "Q (LoadOrdersForOwner market w)
   \<Longrightarrow> keeps Q (collectOrders e market a w accounts acc)"
proof (induction accounts arbitrary: acc)
  case Nil
  have "collectOrders e market a w [] acc = return acc" by (rule ext) simp
  then show ?case by (simp only: keeps_return)
next
  case (Cons acct rest)
  have "collectOrders e market a w (acct # rest) acc =
        bind (sdk (\<lambda>h. loadOrdersForOwner e h market w) (LoadOrdersForOwner market w))
          (\<lambda>orders. collectOrders e market a w rest (acc @ map (formatOrder a acct) orders))"
    by (rule ext) (simp add: bind_def split: prod.splits sum.splits)
  then show ?case using Cons by (simp add: keeps_intros)
qed

lemma keeps_placeLimitOrder:
  assumes "\<And>c. \<not> isPlaceOrder c \<Longrightarrow> Q c"
    and "\<And>market args. a_selfTradeBehavior args =
            (case p_selfTradeBehavior p of None \<Rightarrow> ''decrementTake'' | Some b \<Rightarrow> b)
          \<Longrightarrow> Q (MakePlaceOrderInstruction market args)"
  shows "keeps Q (placeLimitOrder e (Some p))"
  unfolding placeLimitOrder_def Let_def option.case
  by (intro keeps_intros assms) simp_all

lemma keeps_all_placeLimitOrder: "keeps (\<lambda>c. True) (placeLimitOrder e p)"
proof (cases p)
  case None
  then show ?thesis by (simp add: placeLimitOrder_def keeps_throw)
next
  case (Some q)
  show ?thesis unfolding Some by (rule keeps_placeLimitOrder) simp_all
qed

lemma keeps_all_placeMarketOrder: "keeps (\<lambda>c. True) (placeMarketOrder e p)"
  unfolding placeMarketOrder_def Let_def
  by (intro keeps_intros keeps_all_placeLimitOrder) simp_all

lemma keeps_all_cancelOrder: "keeps (\<lambda>c. True) (cancelOrder e p)"
  unfolding cancelOrder_def Let_def
  by (intro keeps_intros) simp_all

lemma keeps_all_settleFunds: "keeps (\<lambda>c. True) (settleFunds e p)"
  unfolding settleFunds_def Let_def
  by (intro keeps_intros) simp_all

lemma keeps_all_getOpenOrders: "keeps (\<lambda>c. True) (getOpenOrders e a w)"
  unfolding getOpenOrders_def
  by (intro keeps_intros) simp_all

lemma keeps_all_getRecentTrades: "keeps (\<lambda>c. True) (getRecentTrades e a l)"
  unfolding getRecentTrades_def Let_def
  by (intro keeps_intros) simp_all

lemma keeps_all_getMarketStats: "keeps (\<lambda>c. True) (getMarketStats e a)"
  unfolding getMarketStats_def
  by (intro keeps_intros keeps_all_getRecentTrades) simp_all

lemma perform_cache: "marketCache s \<subseteq>\<^sub>m marketCache (perform e op s)"
proof (cases op)
  case (GetMarket a)
  have "keeps (\<lambda>c. True) (getMarket e a)" by (intro keeps_intros) simp_all
  then show ?thesis unfolding GetMarket by (simp add: keeps_cache)
next
  case (GetOrderBook a d)
  have "keeps (\<lambda>c. True) (getOrderBook e a d)" by (intro keeps_intros) simp_all
  then show ?thesis unfolding GetOrderBook by (simp add: keeps_cache)
next
  case (PlaceLimitOrder p)
  then show ?thesis by (simp add: keeps_cache[OF keeps_all_placeLimitOrder])
next
  case (PlaceMarketOrder p)
  then show ?thesis by (simp add: keeps_cache[OF keeps_all_placeMarketOrder])
next
  case (CancelOrder p)
  then show ?thesis by (simp add: keeps_cache[OF keeps_all_cancelOrder])
next
  case (SettleFunds p)
  then show ?thesis by (simp add: keeps_cache[OF keeps_all_settleFunds])
next
  case (GetOpenOrders a w)
  then show ?thesis by (simp add: keeps_cache[OF keeps_all_getOpenOrders])
next
  case (GetRecentTrades a l)
  then show ?thesis by (simp add: keeps_cache[OF keeps_all_getRecentTrades])
next
  case (GetMarketStats a)
  then show ?thesis by (simp add: keeps_cache[OF keeps_all_getMarketStats])
qed

lemma session_cache: "marketCache s \<subseteq>\<^sub>m marketCache (session e ops s)"
proof (induction ops arbitrary: s)
  case Nil
  then show ?case by simp
next
  case (Cons op ops)
  have "marketCache s \<subseteq>\<^sub>m marketCache (perform e op s)" by (rule perform_cache)
  also have "\<dots> \<subseteq>\<^sub>m marketCache (session e ops (perform e op s))" by (rule Cons.IH)
  finally (map_le_trans) show ?case by simp
qed

section \<open>The registry of markets\<close>

lemma getMarket_hit: "marketCache s a = Some m \<Longrightarrow> getMarket e a s = (Inr m, s)"
  by (simp add: getMarket_def getMarket_start_def)

lemma getMarket_Inr: "getMarket e a s = (Inr m, s1) \<Longrightarrow> marketCache s1 a = Some m"
  by (auto simp: getMarket_def getMarket_start_def getMarket_finish_def sdk_def
      split: option.splits sum.splits prod.splits)

lemma getMarket_miss:
  "marketCache s a = None \<Longrightarrow> getMarket e a s = (Inr m, s1) \<Longrightarrow>
   \<exists>pk. newPublicKey e (history s) a = Inr pk
      \<and> Market_load e (history s @ [NewPublicKey a]) pk = Inr m
      \<and> s1 = \<lparr>marketCache = (marketCache s)(a \<mapsto> m),
               history = history s @ [NewPublicKey a, MarketLoad pk]\<rparr>"
  by (auto simp: getMarket_def getMarket_start_def getMarket_finish_def sdk_def
      split: option.splits sum.splits prod.splits)

lemma getMarket_Inl: "getMarket e a s = (Inl err, s1) \<Longrightarrow> marketCache s1 = marketCache s"
  by (auto simp: getMarket_def getMarket_start_def getMarket_finish_def sdk_def
      split: option.splits sum.splits prod.splits)

text \<open>
  C8, as the code has it. The constructor starts with an empty map. When calls do not
  overlap (each is awaited before the next starts), the \<^verbatim>\<open>marketCache\<close> registry is
  created on first reference and never evicted: the first successful \<^verbatim>\<open>getMarket\<close> of
  an address loads the market from the network and stores it; after a successful
  \<^verbatim>\<open>getMarket\<close>, and after any sequence of operations of the class, \<^verbatim>\<open>getMarket\<close> of
  that address returns the same market and leaves the state as it is (no call is made);
  a failed load leaves the map as it was; and no sequence of operations removes or
  changes an entry. When calls of \<^verbatim>\<open>getMarket\<close> overlap, the part before the \<^verbatim>\<open>await\<close>
  leaves the map as it is, and the part after it stores the market it loaded under its
  address, in place of any entry stored there meanwhile, and touches no other address;
  a load that failed stores nothing.
\<close>

theorem marketCache_registry:
  "marketCache constructor = Map.empty
   \<and> (marketCache s a = None \<and> getMarket e a s = (Inr m, s1) \<longrightarrow>
        (\<exists>pk. newPublicKey e (history s) a = Inr pk
            \<and> Market_load e (history s @ [NewPublicKey a]) pk = Inr m
            \<and> s1 = \<lparr>marketCache = (marketCache s)(a \<mapsto> m),
                     history = history s @ [NewPublicKey a, MarketLoad pk]\<rparr>))
   \<and> (getMarket e a s = (Inr m, s1) \<longrightarrow>
        marketCache s1 a = Some m
        \<and> getMarket e a (session e ops s1) = (Inr m, session e ops s1))
   \<and> (getMarket e a s = (Inl err, s1) \<longrightarrow> marketCache s1 = marketCache s)
   \<and> marketCache s \<subseteq>\<^sub>m marketCache (session e ops s)
   \<and> marketCache (snd (getMarket_start e a s)) = marketCache s
   \<and> marketCache (snd (getMarket_finish a (Inr m) s)) = (marketCache s)(a \<mapsto> m)
   \<and> marketCache (snd (getMarket_finish a (Inl msg) s)) = marketCache s"
proof -
  have 1: "marketCache constructor = Map.empty" by (simp add: constructor_def)
  have 2: "marketCache s a = None \<and> getMarket e a s = (Inr m, s1) \<longrightarrow>
        (\<exists>pk. newPublicKey e (history s) a = Inr pk
            \<and> Market_load e (history s @ [NewPublicKey a]) pk = Inr m
            \<and> s1 = \<lparr>marketCache = (marketCache s)(a \<mapsto> m),
                     history = history s @ [NewPublicKey a, MarketLoad pk]\<rparr>)"
    using getMarket_miss by blast
  have 3: "getMarket e a s = (Inr m, s1) \<longrightarrow>
        marketCache s1 a = Some m
        \<and> getMarket e a (session e ops s1) = (Inr m, session e ops s1)"
  proof
    assume "getMarket e a s = (Inr m, s1)"
    then have c: "marketCache s1 a = Some m" by (rule getMarket_Inr)
    have "marketCache s1 \<subseteq>\<^sub>m marketCache (session e ops s1)" by (rule session_cache)
    with c have "marketCache (session e ops s1) a = Some m"
      by (auto simp: map_le_def dom_def)
    then have "getMarket e a (session e ops s1) = (Inr m, session e ops s1)"
      by (rule getMarket_hit)
    with c show "marketCache s1 a = Some m
        \<and> getMarket e a (session e ops s1) = (Inr m, session e ops s1)" by simp
  qed
  have 4: "getMarket e a s = (Inl err, s1) \<longrightarrow> marketCache s1 = marketCache s"
    using getMarket_Inl by blast
  have 5: "marketCache s \<subseteq>\<^sub>m marketCache (session e ops s)" by (rule session_cache)
  have 6: "marketCache (snd (getMarket_start e a s)) = marketCache s"
    by (simp add: getMarket_start_def sdk_def split: option.splits sum.splits)
  have 7: "marketCache (snd (getMarket_finish a (Inr m) s)) = (marketCache s)(a \<mapsto> m)"
    by (simp add: getMarket_finish_def)
  have 8: "marketCache (snd (getMarket_finish a (Inl msg) s)) = marketCache s"
    by (simp add: getMarket_finish_def)
  show ?thesis
    by (rule conjI[OF 1 conjI[OF 2 conjI[OF 3 conjI[OF 4 conjI[OF 5 conjI[OF 6 conjI[OF 7 8]]]]]]])
qed

text \<open>
  Two calls for the same address that overlap both load the market, and the later
  store replaces the earlier: the first call to succeed stored and returned the
  instance 1, and a call made after both returns the instance 3.
\<close>

theorem marketCache_overlap_counterexample:
  "getMarket_start freshEnv ''M'' constructor = (Inr (Inr (Market ''M'' 1)), overlap1)
   \<and> getMarket_start freshEnv ''M'' overlap1 = (Inr (Inr (Market ''M'' 3)), overlap2)
   \<and> getMarket_finish ''M'' (Inr (Market ''M'' 1)) overlap2 = (Inr (Market ''M'' 1), overlap3)
   \<and> marketCache overlap3 ''M'' = Some (Market ''M'' 1)
   \<and> getMarket_finish ''M'' (Inr (Market ''M'' 3)) overlap3 = (Inr (Market ''M'' 3), overlap4)
   \<and> getMarket freshEnv ''M'' overlap4 = (Inr (Market ''M'' 3), overlap4)
   \<and> history overlap4
       = [NewPublicKey ''M'', MarketLoad ''M'', NewPublicKey ''M'', MarketLoad ''M'']"
  by (simp add: overlap4_def overlap3_def overlap2_def overlap1_def getMarket_def
      getMarket_start_def getMarket_finish_def sdk_def constructor_def freshEnv_def demoEnv_def)

theorem marketCache_registry_witness:
  "getMarket (demoEnv [] []) ''M'' constructor
     = (Inr (Market ''M'' 1),
        \<lparr>marketCache = [''M'' \<mapsto> Market ''M'' 1],
         history = [NewPublicKey ''M'', MarketLoad ''M'']\<rparr>)
   \<and> getMarket (demoEnv [] []) ''M''
        (session (demoEnv [] []) [GetOrderBook ''M'' None, GetMarket ''N'']
           \<lparr>marketCache = [''M'' \<mapsto> Market ''M'' 1],
            history = [NewPublicKey ''M'', MarketLoad ''M'']\<rparr>)
     = (Inr (Market ''M'' 1),
        session (demoEnv [] []) [GetOrderBook ''M'' None, GetMarket ''N'']
           \<lparr>marketCache = [''M'' \<mapsto> Market ''M'' 1],
            history = [NewPublicKey ''M'', MarketLoad ''M'']\<rparr>)
   \<and> getMarket downEnv ''M'' constructor
     = (Inl (Error ''Failed to load market: timeout''),
        \<lparr>marketCache = Map.empty, history = [NewPublicKey ''M'', MarketLoad ''M'']\<rparr>)"
proof -
  have run: "getMarket (demoEnv [] []) ''M'' constructor
     = (Inr (Market ''M'' 1),
        \<lparr>marketCache = [''M'' \<mapsto> Market ''M'' 1],
         history = [NewPublicKey ''M'', MarketLoad ''M'']\<rparr>)"
    by (simp add: getMarket_def getMarket_start_def getMarket_finish_def sdk_def constructor_def demoEnv_def)
  have down: "getMarket downEnv ''M'' constructor
     = (Inl (Error ''Failed to load market: timeout''),
        \<lparr>marketCache = Map.empty, history = [NewPublicKey ''M'', MarketLoad ''M'']\<rparr>)"
    by (simp add: getMarket_def getMarket_start_def getMarket_finish_def sdk_def constructor_def demoEnv_def
        downEnv_def)
  have again: "getMarket (demoEnv [] []) ''M''
        (session (demoEnv [] []) [GetOrderBook ''M'' None, GetMarket ''N'']
           \<lparr>marketCache = [''M'' \<mapsto> Market ''M'' 1],
            history = [NewPublicKey ''M'', MarketLoad ''M'']\<rparr>)
     = (Inr (Market ''M'' 1),
        session (demoEnv [] []) [GetOrderBook ''M'' None, GetMarket ''N'']
           \<lparr>marketCache = [''M'' \<mapsto> Market ''M'' 1],
            history = [NewPublicKey ''M'', MarketLoad ''M'']\<rparr>)"
    by (rule marketCache_registry[of constructor "''M''" "demoEnv [] []" "Market ''M'' 1"
        "\<lparr>marketCache = [''M'' \<mapsto> Market ''M'' 1],
          history = [NewPublicKey ''M'', MarketLoad ''M'']\<rparr>"
        "[GetOrderBook ''M'' None, GetMarket ''N'']",
        THEN conjunct2, THEN conjunct2, THEN conjunct1, THEN mp, OF run, THEN conjunct2])
  show ?thesis by (rule conjI[OF run conjI[OF again down]])
qed

section \<open>The statistics\<close>


















section \<open>No failure is swallowed, and every failure is explained\<close>

named_theorems tracked_intros

lemma clean_append: "clean e h (cs1 @ cs2) = (clean e h cs1 \<and> clean e (h @ cs1) cs2)"
  by (induction cs1 arbitrary: h) simp_all

lemma explains_append:
  "clean e h cs1 \<Longrightarrow> explains e ws own (h @ cs1) cs2 msg
   \<Longrightarrow> explains e ws own h (cs1 @ cs2) msg"
  by (induction cs1 arbitrary: h) simp_all

lemma explains_mono:
  "set ws \<subseteq> set ws' \<Longrightarrow> set own \<subseteq> set own' \<Longrightarrow> explains e ws own h cs msg
   \<Longrightarrow> explains e ws' own' h cs msg"
  by (induction cs arbitrary: h) (auto split: option.splits)

lemma explains_prefix:
  "explains e ws own h cs msg
   \<Longrightarrow> explains e (map ((@) pre) ws) (map ((@) pre) own) h cs (pre @ msg)"
  by (induction cs arbitrary: h) (auto split: option.splits)

lemma accounted_append:
  "clean e h cs1 \<Longrightarrow> accounted e ws own v (h @ cs1) cs2 r
   \<Longrightarrow> accounted e ws own v h (cs1 @ cs2) r"
  by (auto simp: accounted_def clean_append explains_append split: sum.splits option.splits)

lemma accounted_mono:
  "set ws \<subseteq> set ws' \<Longrightarrow> set own \<subseteq> set own' \<Longrightarrow> accounted e ws own v h cs r
   \<Longrightarrow> accounted e ws' own' v h cs r"
  by (auto simp: accounted_def split: sum.splits option.splits intro: explains_mono)

lemma trackedI:
  assumes "\<And>s. \<exists>cs. history (snd (m s)) = history s @ cs
             \<and> accounted e ws own v (history s) cs (fst (m s))"
  shows "tracked e ws own v m"
  using assms by (simp add: tracked_def)

lemma trackedD:
  assumes "tracked e ws own v m" and "m s = (r, s')"
  shows "\<exists>cs. history s' = history s @ cs \<and> accounted e ws own v (history s) cs r"
proof -
  from assms(1) obtain cs where "history (snd (m s)) = history s @ cs"
    "accounted e ws own v (history s) cs (fst (m s))"
    unfolding tracked_def by blast
  then show ?thesis using assms(2) by auto
qed

lemma tracked_return [tracked_intros]:
  "(case v x of None \<Rightarrow> True | Some msg \<Rightarrow> msg \<in> set own) \<Longrightarrow> tracked e ws own v (return x)"
  by (rule trackedI) (simp add: accounted_def split: option.splits)

lemma tracked_throw [tracked_intros]:
  "message err \<in> set own \<Longrightarrow> tracked e ws own v (throw err)"
  by (rule trackedI) (simp add: accounted_def)

lemma tracked_dateNow [tracked_intros]: "tracked e ws own noVerdict (dateNow e')"
  by (rule trackedI) (simp add: accounted_def dateNow_def noVerdict_def)

lemma tracked_sdk [tracked_intros]:
  assumes "\<And>h. thrown e h c = failure (f h)" and "[] \<in> set ws"
  shows "tracked e ws own noVerdict (sdk f c)"
proof (rule trackedI)
  fix s
  have "accounted e ws own noVerdict (history s) [c] (fst (sdk f c s))"
  proof (cases "f (history s)")
    case (Inl m)
    have "m \<in> (\<lambda>w. w @ m) ` set ws"
      by (rule image_eqI[where x = "[]"]) (simp_all add: assms(2))
    then show ?thesis
      by (simp add: sdk_def Inl accounted_def assms(1) failure_def)
  next
    case (Inr x)
    then show ?thesis
      by (simp add: sdk_def accounted_def assms(1) failure_def noVerdict_def)
  qed
  moreover have "history (snd (sdk f c s)) = history s @ [c]"
    by (simp add: sdk_def)
  ultimately show "\<exists>cs. history (snd (sdk f c s)) = history s @ cs
             \<and> accounted e ws own noVerdict (history s) cs (fst (sdk f c s))"
    by blast
qed

lemma tracked_bind [tracked_intros]:
  assumes m: "tracked e ws own noVerdict m" and f: "\<And>x. tracked e ws own v (f x)"
  shows "tracked e ws own v (bind m f)"
proof (rule trackedI)
  fix s
  obtain r s1 where r: "m s = (r, s1)" by (cases "m s")
  from trackedD[OF m r] obtain cs1 where 1: "history s1 = history s @ cs1"
    "accounted e ws own noVerdict (history s) cs1 r" by blast
  show "\<exists>cs. history (snd (bind m f s)) = history s @ cs
             \<and> accounted e ws own v (history s) cs (fst (bind m f s))"
  proof (cases r)
    case (Inl err)
    then have "bind m f s = (Inl err, s1)" using r by (simp add: bind_def)
    moreover have "accounted e ws own v (history s) cs1 (Inl err)"
      using 1(2) Inl by (simp add: accounted_def)
    ultimately show ?thesis using 1(1) by auto
  next
    case (Inr x)
    then have b: "bind m f s = f x s1" using r by (simp add: bind_def)
    have c: "clean e (history s) cs1" using 1(2) Inr by (simp add: accounted_def noVerdict_def)
    obtain r2 s2 where r2: "f x s1 = (r2, s2)" by (cases "f x s1")
    from trackedD[OF f r2] obtain cs2 where 2: "history s2 = history s1 @ cs2"
      "accounted e ws own v (history s1) cs2 r2" by blast
    have "accounted e ws own v (history s) (cs1 @ cs2) r2"
      using c 2(2) unfolding 1(1) by (rule accounted_append)
    moreover have "history s2 = history s @ (cs1 @ cs2)" using 1(1) 2(1) by simp
    ultimately show ?thesis unfolding b r2 by auto
  qed
qed

lemma tracked_try_fail [tracked_intros]:
  assumes "tracked e ws own verdict m"
  shows "tracked e ws own verdict (try_catch m (\<lambda>error. return (Failure (message error))))"
proof (rule trackedI)
  fix s
  obtain r s1 where r: "m s = (r, s1)" by (cases "m s")
  from trackedD[OF assms r] obtain cs where 1: "history s1 = history s @ cs"
    "accounted e ws own verdict (history s) cs r" by blast
  show "\<exists>cs. history (snd (try_catch m (\<lambda>error. return (Failure (message error))) s))
               = history s @ cs
             \<and> accounted e ws own verdict (history s) cs
                 (fst (try_catch m (\<lambda>error. return (Failure (message error))) s))"
    using 1 r by (cases r) (auto simp: try_catch_def accounted_def)
qed

lemma tracked_try_rethrow:
  assumes "tracked e ws own noVerdict m"
  shows "tracked e (map ((@) pre) ws) (map ((@) pre) own) noVerdict
           (try_catch m (\<lambda>error. throw (Error (pre @ message error))))"
proof (rule trackedI)
  fix s
  obtain r s1 where r: "m s = (r, s1)" by (cases "m s")
  from trackedD[OF assms r] obtain cs where 1: "history s1 = history s @ cs"
    "accounted e ws own noVerdict (history s) cs r" by blast
  show "\<exists>cs. history (snd (try_catch m (\<lambda>error. throw (Error (pre @ message error))) s))
               = history s @ cs
             \<and> accounted e (map ((@) pre) ws) (map ((@) pre) own) noVerdict (history s) cs
                 (fst (try_catch m (\<lambda>error. throw (Error (pre @ message error))) s))"
  proof (cases r)
    case (Inl err)
    then have "explains e (map ((@) pre) ws) (map ((@) pre) own) (history s) cs
                 (pre @ message err)"
      using 1(2) by (simp add: accounted_def explains_prefix)
    then show ?thesis using 1(1) r Inl by (auto simp: try_catch_def accounted_def)
  next
    case (Inr x)
    then show ?thesis using 1 r by (auto simp: try_catch_def accounted_def noVerdict_def)
  qed
qed

lemma tracked_mono:
  assumes "tracked e ws own v m" and "set ws \<subseteq> set ws'" and "set own \<subseteq> set own'"
  shows "tracked e ws' own' v m"
proof (rule trackedI)
  fix s
  obtain r s1 where r: "m s = (r, s1)" by (cases "m s")
  from trackedD[OF assms(1) r] obtain cs where 1: "history s1 = history s @ cs"
    "accounted e ws own v (history s) cs r" by blast
  from accounted_mono[OF assms(2,3) 1(2)] 1(1) r
  show "\<exists>cs. history (snd (m s)) = history s @ cs
             \<and> accounted e ws' own' v (history s) cs (fst (m s))" by auto
qed

lemma tracked_if [tracked_intros]:
  "tracked e ws own v a \<Longrightarrow> tracked e ws own v b \<Longrightarrow> tracked e ws own v (if c then a else b)"
  by simp

lemma tracked_case_option [tracked_intros]:
  "tracked e ws own v a \<Longrightarrow> (\<And>x. tracked e ws own v (b x))
   \<Longrightarrow> tracked e ws own v (case x of None \<Rightarrow> a | Some y \<Rightarrow> b y)"
  by (cases x) simp_all

lemma tracked_case_prod [tracked_intros]:
  "(\<And>x y. tracked e ws own v (f x y)) \<Longrightarrow> tracked e ws own v (case p of (x, y) \<Rightarrow> f x y)"
  by (cases p) simp

lemma tracked_liftE:
  "(\<And>err. x = Inl err \<Longrightarrow> message err \<in> set own) \<Longrightarrow> tracked e ws own noVerdict (liftE x)"
  by (cases x) (simp_all add: liftE_def tracked_throw tracked_return noVerdict_def)

lemma tracked_firstAddress [tracked_intros]:
  "message typeError \<in> set own \<Longrightarrow> tracked e ws own noVerdict (firstAddress accounts)"
  by (cases accounts) (simp_all add: firstAddress_def tracked_throw tracked_return noVerdict_def)

lemma tracked_getMarket [tracked_intros]:
  assumes "''Failed to load market: '' \<in> set ws"
  shows "tracked e ws own noVerdict (getMarket e a)"
proof (rule trackedI)
  fix s
  have w: "''Failed to load market: '' @ m \<in> (\<lambda>w. w @ m) ` set ws" for m
    by (rule image_eqI[where x = "''Failed to load market: ''"]) (simp_all add: assms)
  show "\<exists>cs. history (snd (getMarket e a s)) = history s @ cs
             \<and> accounted e ws own noVerdict (history s) cs (fst (getMarket e a s))"
  proof (cases "marketCache s a")
    case (Some market)
    then show ?thesis
      by (simp add: getMarket_def getMarket_start_def accounted_def noVerdict_def)
  next
    case None
    show ?thesis
    proof (cases "newPublicKey e (history s) a")
      case (Inl m)
      have "accounted e ws own noVerdict (history s) [NewPublicKey a] (fst (getMarket e a s))"
        using w[of m]
        by (simp add: getMarket_def getMarket_start_def sdk_def None Inl accounted_def
            failure_def)
      moreover have "history (snd (getMarket e a s)) = history s @ [NewPublicKey a]"
        by (simp add: getMarket_def getMarket_start_def sdk_def None Inl)
      ultimately show ?thesis by blast
    next
      case (Inr pk)
      have "accounted e ws own noVerdict (history s) [NewPublicKey a, MarketLoad pk]
              (fst (getMarket e a s))"
        using w
        by (cases "Market_load e (history s @ [NewPublicKey a]) pk")
          (simp_all add: getMarket_def getMarket_start_def getMarket_finish_def sdk_def None
            Inr accounted_def failure_def noVerdict_def)
      moreover have "history (snd (getMarket e a s))
                       = history s @ [NewPublicKey a, MarketLoad pk]"
        by (cases "Market_load e (history s @ [NewPublicKey a]) pk")
          (simp_all add: getMarket_def getMarket_start_def getMarket_finish_def sdk_def None Inr)
      ultimately show ?thesis by blast
    qed
  qed
qed

lemma tracked_getOrderBook [tracked_intros]:
  assumes "''Failed to fetch order book: '' \<in> set ws"
    and "''Failed to fetch order book: Failed to load market: '' \<in> set ws"
  shows "tracked e ws own noVerdict (getOrderBook e a d)"
proof -
  have "tracked e loadPrefixes [] noVerdict
          (bind (getMarket e a) (\<lambda>market.
           bind (sdk (\<lambda>h. loadBidsAsks e h market) (LoadBidsAsks market)) (\<lambda>(bidSlab, askSlab).
           bind (dateNow e) (\<lambda>ts.
           return (snapshot a (getL2 bidSlab (case d of None \<Rightarrow> 20 | Some d \<Rightarrow> d))
                     (getL2 askSlab (case d of None \<Rightarrow> 20 | Some d \<Rightarrow> d)) ts)))))"
    by (intro tracked_intros; simp add: loadPrefixes_def noVerdict_def)
  from tracked_try_rethrow[OF this, of "''Failed to fetch order book: ''"]
  show ?thesis
    unfolding getOrderBook_def Let_def
    by (rule tracked_mono) (simp_all add: loadPrefixes_def assms)
qed

lemma tracked_settleInstructions [tracked_intros]:
  "[] \<in> set ws \<Longrightarrow> tracked e ws own noVerdict (settleInstructions e market wallet accounts tx)"
proof (induction accounts arbitrary: tx)
  case Nil
  have "settleInstructions e market wallet [] tx = return tx" by (rule ext) simp
  then show ?case by (simp only:) (rule tracked_return, simp add: noVerdict_def)
next
  case (Cons acct rest)
  have "settleInstructions e market wallet (acct # rest) tx =
        bind (sdk (\<lambda>h. makeSettleFundsTransaction e h market acct (publicKey wallet) (publicKey wallet))
               (MakeSettleFundsTransaction market acct (publicKey wallet) (publicKey wallet)))
          (\<lambda>instruction. settleInstructions e market wallet rest (tx @ [instruction]))"
    by (rule ext) (simp add: bind_def split: prod.splits sum.splits)
  then show ?case using Cons by (simp only:) (intro tracked_intros; simp)
qed

lemma tracked_placeLimitOrder [tracked_intros]:
  assumes "[] \<in> set ws" and "''Failed to load market: '' \<in> set ws"
    and "message typeError \<in> set own"
  shows "tracked e ws own verdict (placeLimitOrder e (Some p))"
  unfolding placeLimitOrder_def Let_def option.case
  by (intro tracked_intros; simp add: assms noVerdict_def)

lemma estimate_error:
  "estimateMarketOrderPrice orders q sd = Inl err \<Longrightarrow> err = insufficientLiquidity"
  by (auto simp: estimateMarketOrderPrice_def split: prod.splits if_splits)

lemma tracked_placeMarketOrder:
  "tracked e bookPrefixes [message insufficientLiquidity, message typeError] verdict
     (placeMarketOrder e (Some p))"
  unfolding placeMarketOrder_def Let_def option.case
  apply (intro tracked_intros tracked_liftE)
  apply (auto simp: bookPrefixes_def noVerdict_def dest!: estimate_error split: if_splits)
  done

lemma tracked_cancelOrder:
  "tracked e loadPrefixes [message typeError] verdict (cancelOrder e (Some p))"
  unfolding cancelOrder_def Let_def option.case
  by (intro tracked_intros; simp add: loadPrefixes_def noVerdict_def)

lemma tracked_settleFunds:
  "tracked e loadPrefixes [noOpenOrders] verdict (settleFunds e (Some p))"
  unfolding settleFunds_def Let_def option.case
  by (intro tracked_intros; simp add: loadPrefixes_def noVerdict_def)

section \<open>What the mutating operations return\<close>

lemma try_fail_success:
  "try_catch m (\<lambda>err. return (Failure (g err))) s = (Inr r, s') \<Longrightarrow> success r
   \<Longrightarrow> m s = (Inr r, s')"
  by (auto simp: try_catch_def split: prod.splits sum.splits)

lemma try_fail_total: "\<exists>r s'. try_catch m (\<lambda>err. return (Failure (g err))) s = (Inr r, s')"
  by (auto simp: try_catch_def split: prod.splits sum.splits)

lemma placeLimitOrder_success:
  assumes "placeLimitOrder e (Some p) s = (Inr r, s')" and "success r"
  shows "\<exists>t h tx. r = Placed t (p_marketAddress p) (p_side p) (p_price p) (p_size p)
                 (case p_orderType p of None \<Rightarrow> ''limit'' | Some ot \<Rightarrow> ot)
                 (truthyId (p_clientId p))
             \<and> sendTransaction e h tx (p_wallet p) ''confirmed'' = Inr t"
  using assms unfolding placeLimitOrder_def Let_def option.case
  by (auto dest!: try_fail_success sdk_Inr elim!: bind_InrE) blast

lemma placeMarketOrder_success:
  assumes "placeMarketOrder e (Some p) s = (Inr r, s')" and "success r"
  shows "\<exists>t pr h tx. r = Placed t (m_marketAddress p) (m_side p) pr (m_size p)
                 (case m_orderType p of None \<Rightarrow> ''ioc'' | Some ot \<Rightarrow> ot)
                 (truthyId (m_clientId p))
             \<and> sendTransaction e h tx (m_wallet p) ''confirmed'' = Inr t"
proof -
  from assms have "bind (getMarket e (m_marketAddress p)) (\<lambda>market.
         bind (getOrderBook e (m_marketAddress p) None) (\<lambda>orderBook.
         bind (liftE (if m_side p = ''buy''
                      then estimateMarketOrderPrice (asks orderBook) (m_size p) (m_side p)
                      else estimateMarketOrderPrice (bids orderBook) (m_size p) (m_side p)))
           (\<lambda>estimatedPrice.
         placeLimitOrder e
           (Some \<lparr>p_marketAddress = m_marketAddress p,
                  p_wallet = m_wallet p,
                  p_side = m_side p,
                  p_price = dmul estimatedPrice (Fin slippage),
                  p_size = m_size p,
                  p_orderType = Some (case m_orderType p of None \<Rightarrow> ''ioc'' | Some t \<Rightarrow> t),
                  p_clientId = m_clientId p,
                  p_selfTradeBehavior = None\<rparr>)))) s = (Inr r, s')"
    unfolding placeMarketOrder_def Let_def option.case by (rule try_fail_success)
  then obtain pr s3 where
    "placeLimitOrder e
           (Some \<lparr>p_marketAddress = m_marketAddress p,
                  p_wallet = m_wallet p,
                  p_side = m_side p,
                  p_price = pr,
                  p_size = m_size p,
                  p_orderType = Some (case m_orderType p of None \<Rightarrow> ''ioc'' | Some t \<Rightarrow> t),
                  p_clientId = m_clientId p,
                  p_selfTradeBehavior = None\<rparr>) s3 = (Inr r, s')"
    by (elim bind_InrE) blast
  from placeLimitOrder_success[OF this assms(2)] show ?thesis by simp blast
qed

lemma cancelOrder_success:
  assumes "cancelOrder e (Some p) s = (Inr r, s')" and "success r"
  shows "\<exists>t h tx. r = Cancelled t (co_marketAddress p) (co_orderId p)
             \<and> sendTransaction e h tx (co_wallet p) ''confirmed'' = Inr t"
  using assms unfolding cancelOrder_def Let_def option.case
  by (auto dest!: try_fail_success sdk_Inr elim!: bind_InrE) blast

lemma settleFunds_success:
  assumes "settleFunds e (Some p) s = (Inr r, s')" and "success r"
  shows "\<exists>t h tx. r = Settled t (sf_marketAddress p)
             \<and> sendTransaction e h tx (sf_wallet p) ''confirmed'' = Inr t"
  using assms unfolding settleFunds_def Let_def option.case
  by (auto dest!: try_fail_success sdk_Inr elim!: bind_InrE split: if_splits) blast

lemma operation_summary:
  assumes total: "\<exists>r s'. m s = (Inr r, s')"
    and tr: "tracked e ws own verdict m"
    and shape: "\<And>r s'. m s = (Inr r, s') \<Longrightarrow> success r \<Longrightarrow> S r"
  shows "\<exists>r s' cs. m s = (Inr r, s') \<and> history s' = history s @ cs
           \<and> (success r \<longrightarrow> S r \<and> clean e (history s) cs)
           \<and> (\<not> success r \<longrightarrow>
                (\<exists>msg. r = Failure msg \<and> explains e ws own (history s) cs msg))"
proof -
  from total obtain r s' where run: "m s = (Inr r, s')" by blast
  from trackedD[OF tr run] obtain cs where h: "history s' = history s @ cs"
    and acc: "accounted e ws own verdict (history s) cs (Inr r)" by blast
  have a: "success r \<longrightarrow> S r \<and> clean e (history s) cs"
    using shape[OF run] acc by (cases r) (simp_all add: accounted_def)
  have b: "\<not> success r \<longrightarrow> (\<exists>msg. r = Failure msg \<and> explains e ws own (history s) cs msg)"
    using acc by (cases r) (simp_all add: accounted_def)
  from run h a b show ?thesis by blast
qed

lemma placeLimitOrder_total: "\<exists>r s'. placeLimitOrder e (Some p) s = (Inr r, s')"
  unfolding placeLimitOrder_def Let_def option.case by (rule try_fail_total)

lemma placeMarketOrder_total: "\<exists>r s'. placeMarketOrder e (Some p) s = (Inr r, s')"
  unfolding placeMarketOrder_def Let_def option.case by (rule try_fail_total)

lemma cancelOrder_total: "\<exists>r s'. cancelOrder e (Some p) s = (Inr r, s')"
  unfolding cancelOrder_def Let_def option.case by (rule try_fail_total)

lemma settleFunds_total: "\<exists>r s'. settleFunds e (Some p) s = (Inr r, s')"
  unfolding settleFunds_def Let_def option.case by (rule try_fail_total)

text \<open>
  C7, as the code has it. Called with an object of parameters, \<^verbatim>\<open>placeLimitOrder\<close>,
  \<^verbatim>\<open>placeMarketOrder\<close>, \<^verbatim>\<open>cancelOrder\<close> and \<^verbatim>\<open>settleFunds\<close> never propagate an
  exception: each returns an object. When it reports success, the object carries the
  transaction id that \<^verbatim>\<open>sendTransaction\<close> returned and the echoed parameters, and every
  call the operation made returned normally. Otherwise the object is the one with
  \<^verbatim>\<open>success: false\<close>, and its error is explained by the calls made: it is the message
  of the last call, which threw (behind the prefix the \<^verbatim>\<open>catch\<close> of \<^verbatim>\<open>getMarket\<close> or of
  \<^verbatim>\<open>getOrderBook\<close> adds), and every call before it returned normally; or no call
  threw and it is the message of an error of the module itself (reading the address of
  a missing open-orders account, insufficient liquidity, no open-orders account).
  Called without an object of parameters, each of the four throws a \<^verbatim>\<open>TypeError\<close> to
  its caller, as the destructuring stands before the \<^verbatim>\<open>try\<close>.
\<close>

theorem mutating_operations_return_objects:
  "(\<exists>r s' cs. placeLimitOrder e (Some lp) s = (Inr r, s') \<and> history s' = history s @ cs
      \<and> (success r \<longrightarrow>
           (\<exists>t h tx. r = Placed t (p_marketAddress lp) (p_side lp) (p_price lp) (p_size lp)
                         (case p_orderType lp of None \<Rightarrow> ''limit'' | Some ot \<Rightarrow> ot)
                         (truthyId (p_clientId lp))
                   \<and> sendTransaction e h tx (p_wallet lp) ''confirmed'' = Inr t)
         \<and> clean e (history s) cs)
      \<and> (\<not> success r \<longrightarrow>
           (\<exists>msg. r = Failure msg
                \<and> explains e loadPrefixes [message typeError] (history s) cs msg)))
   \<and> (\<exists>r s' cs. placeMarketOrder e (Some mp) s = (Inr r, s') \<and> history s' = history s @ cs
      \<and> (success r \<longrightarrow>
           (\<exists>t pr h tx. r = Placed t (m_marketAddress mp) (m_side mp) pr (m_size mp)
                         (case m_orderType mp of None \<Rightarrow> ''ioc'' | Some ot \<Rightarrow> ot)
                         (truthyId (m_clientId mp))
                   \<and> sendTransaction e h tx (m_wallet mp) ''confirmed'' = Inr t)
         \<and> clean e (history s) cs)
      \<and> (\<not> success r \<longrightarrow>
           (\<exists>msg. r = Failure msg
                \<and> explains e bookPrefixes
                    [message insufficientLiquidity, message typeError] (history s) cs msg)))
   \<and> (\<exists>r s' cs. cancelOrder e (Some cp) s = (Inr r, s') \<and> history s' = history s @ cs
      \<and> (success r \<longrightarrow>
           (\<exists>t h tx. r = Cancelled t (co_marketAddress cp) (co_orderId cp)
                   \<and> sendTransaction e h tx (co_wallet cp) ''confirmed'' = Inr t)
         \<and> clean e (history s) cs)
      \<and> (\<not> success r \<longrightarrow>
           (\<exists>msg. r = Failure msg
                \<and> explains e loadPrefixes [message typeError] (history s) cs msg)))
   \<and> (\<exists>r s' cs. settleFunds e (Some sp) s = (Inr r, s') \<and> history s' = history s @ cs
      \<and> (success r \<longrightarrow>
           (\<exists>t h tx. r = Settled t (sf_marketAddress sp)
                   \<and> sendTransaction e h tx (sf_wallet sp) ''confirmed'' = Inr t)
         \<and> clean e (history s) cs)
      \<and> (\<not> success r \<longrightarrow>
           (\<exists>msg. r = Failure msg
                \<and> explains e loadPrefixes [noOpenOrders] (history s) cs msg)))
   \<and> placeLimitOrder e None s = (Inl destructureError, s)
   \<and> placeMarketOrder e None s = (Inl destructureError, s)
   \<and> cancelOrder e None s = (Inl destructureError, s)
   \<and> settleFunds e None s = (Inl destructureError, s)"
proof -
  have 1: "\<exists>r s' cs. placeLimitOrder e (Some lp) s = (Inr r, s') \<and> history s' = history s @ cs
      \<and> (success r \<longrightarrow>
           (\<exists>t h tx. r = Placed t (p_marketAddress lp) (p_side lp) (p_price lp) (p_size lp)
                         (case p_orderType lp of None \<Rightarrow> ''limit'' | Some ot \<Rightarrow> ot)
                         (truthyId (p_clientId lp))
                   \<and> sendTransaction e h tx (p_wallet lp) ''confirmed'' = Inr t)
         \<and> clean e (history s) cs)
      \<and> (\<not> success r \<longrightarrow>
           (\<exists>msg. r = Failure msg
                \<and> explains e loadPrefixes [message typeError] (history s) cs msg))"
    by (rule operation_summary[OF placeLimitOrder_total _ placeLimitOrder_success])
      (rule tracked_placeLimitOrder, simp_all add: loadPrefixes_def)
  have 2: "\<exists>r s' cs. placeMarketOrder e (Some mp) s = (Inr r, s') \<and> history s' = history s @ cs
      \<and> (success r \<longrightarrow>
           (\<exists>t pr h tx. r = Placed t (m_marketAddress mp) (m_side mp) pr (m_size mp)
                         (case m_orderType mp of None \<Rightarrow> ''ioc'' | Some ot \<Rightarrow> ot)
                         (truthyId (m_clientId mp))
                   \<and> sendTransaction e h tx (m_wallet mp) ''confirmed'' = Inr t)
         \<and> clean e (history s) cs)
      \<and> (\<not> success r \<longrightarrow>
           (\<exists>msg. r = Failure msg
                \<and> explains e bookPrefixes
                    [message insufficientLiquidity, message typeError] (history s) cs msg))"
    by (rule operation_summary[OF placeMarketOrder_total tracked_placeMarketOrder
          placeMarketOrder_success])
  have 3: "\<exists>r s' cs. cancelOrder e (Some cp) s = (Inr r, s') \<and> history s' = history s @ cs
      \<and> (success r \<longrightarrow>
           (\<exists>t h tx. r = Cancelled t (co_marketAddress cp) (co_orderId cp)
                   \<and> sendTransaction e h tx (co_wallet cp) ''confirmed'' = Inr t)
         \<and> clean e (history s) cs)
      \<and> (\<not> success r \<longrightarrow>
           (\<exists>msg. r = Failure msg
                \<and> explains e loadPrefixes [message typeError] (history s) cs msg))"
    by (rule operation_summary[OF cancelOrder_total tracked_cancelOrder cancelOrder_success])
  have 4: "\<exists>r s' cs. settleFunds e (Some sp) s = (Inr r, s') \<and> history s' = history s @ cs
      \<and> (success r \<longrightarrow>
           (\<exists>t h tx. r = Settled t (sf_marketAddress sp)
                   \<and> sendTransaction e h tx (sf_wallet sp) ''confirmed'' = Inr t)
         \<and> clean e (history s) cs)
      \<and> (\<not> success r \<longrightarrow>
           (\<exists>msg. r = Failure msg
                \<and> explains e loadPrefixes [noOpenOrders] (history s) cs msg))"
    by (rule operation_summary[OF settleFunds_total tracked_settleFunds settleFunds_success])
  have 5: "placeLimitOrder e None s = (Inl destructureError, s)"
    by (simp add: placeLimitOrder_def)
  have 6: "placeMarketOrder e None s = (Inl destructureError, s)"
    by (simp add: placeMarketOrder_def)
  have 7: "cancelOrder e None s = (Inl destructureError, s)"
    by (simp add: cancelOrder_def)
  have 8: "settleFunds e None s = (Inl destructureError, s)"
    by (simp add: settleFunds_def)
  show ?thesis
    by (rule conjI[OF 1 conjI[OF 2 conjI[OF 3 conjI[OF 4 conjI[OF 5 conjI[OF 6 conjI[OF 7 8]]]]]]])
qed

text \<open>
  Called with no argument, each of the four operations throws to its caller and
  returns no object.
\<close>

theorem mutating_operations_counterexample:
  "placeLimitOrder (demoEnv [] []) None constructor
     = (Inl (Error ''Cannot destructure property 'marketAddress' of 'params' as it is undefined.''),
        constructor)
   \<and> placeMarketOrder (demoEnv [] []) None constructor
     = (Inl (Error ''Cannot destructure property 'marketAddress' of 'params' as it is undefined.''),
        constructor)
   \<and> cancelOrder (demoEnv [] []) None constructor
     = (Inl (Error ''Cannot destructure property 'marketAddress' of 'params' as it is undefined.''),
        constructor)
   \<and> settleFunds (demoEnv [] []) None constructor
     = (Inl (Error ''Cannot destructure property 'marketAddress' of 'params' as it is undefined.''),
        constructor)"
  by (simp add: placeLimitOrder_def placeMarketOrder_def cancelOrder_def settleFunds_def
      destructureError_def)

theorem mutating_operations_return_objects_witness:
  "placeLimitOrder (demoEnv [] []) (Some limit1) constructor
     = (Inr (Placed ''tx1'' ''M'' ''buy'' (Fin 10) (Fin 2) ''limit'' (Some 7)),
        \<lparr>marketCache = [''M'' \<mapsto> Market ''M'' 1],
         history =
           [NewPublicKey ''M'', MarketLoad ''M'',
            FindOpenOrdersAccountsForOwner (Market ''M'' 1) ''w1'',
            PriceNumberToLots (Market ''M'' 1) (Fin 10),
            BaseSizeNumberToLots (Market ''M'' 1) (Fin 2),
            NewBN (BnNumber 7),
            MakePlaceOrderInstruction (Market ''M'' 1)
              \<lparr>a_owner = ''w1'', a_payer = ''w1'', a_side = ''buy'', a_price = 1,
               a_size = 1, a_orderType = ''limit'', a_clientId = Some 7,
               a_openOrdersAddressKey = ''oo1'', a_feeDiscountPubkey = None,
               a_selfTradeBehavior = ''decrementTake''\<rparr>,
            SendTransaction [Instruction ''place''] (Wallet ''w1'') ''confirmed'']\<rparr>)
   \<and> clean (demoEnv [] []) []
        [NewPublicKey ''M'', MarketLoad ''M'',
         FindOpenOrdersAccountsForOwner (Market ''M'' 1) ''w1'',
         PriceNumberToLots (Market ''M'' 1) (Fin 10),
         BaseSizeNumberToLots (Market ''M'' 1) (Fin 2),
         NewBN (BnNumber 7),
         MakePlaceOrderInstruction (Market ''M'' 1)
           \<lparr>a_owner = ''w1'', a_payer = ''w1'', a_side = ''buy'', a_price = 1,
            a_size = 1, a_orderType = ''limit'', a_clientId = Some 7,
            a_openOrdersAddressKey = ''oo1'', a_feeDiscountPubkey = None,
            a_selfTradeBehavior = ''decrementTake''\<rparr>,
         SendTransaction [Instruction ''place''] (Wallet ''w1'') ''confirmed'']
   \<and> placeLimitOrder downEnv (Some limit1) constructor
     = (Inr (Failure ''Failed to load market: timeout''),
        \<lparr>marketCache = Map.empty, history = [NewPublicKey ''M'', MarketLoad ''M'']\<rparr>)
   \<and> explains downEnv loadPrefixes [message typeError] []
        [NewPublicKey ''M'', MarketLoad ''M''] ''Failed to load market: timeout''
   \<and> thrown downEnv [NewPublicKey ''M''] (MarketLoad ''M'') = Some ''timeout''
   \<and> cancelOrder (demoEnv [] []) (Some cancel1) constructor
     = (Inr (Cancelled ''tx1'' ''M'' ''42''),
        \<lparr>marketCache = [''M'' \<mapsto> Market ''M'' 1],
         history =
           [NewPublicKey ''M'', MarketLoad ''M'',
            FindOpenOrdersAccountsForOwner (Market ''M'' 1) ''w1'',
            NewBN (BnString ''42''),
            MakeCancelOrderInstruction (Market ''M'' 1)
              \<lparr>c_owner = ''w1'', c_openOrders = ''oo1'', c_orderId = 42,
               c_side = ''buy''\<rparr>,
            SendTransaction [Instruction ''cancel''] (Wallet ''w1'') ''confirmed'']\<rparr>)"
proof -
  let ?h = "[NewPublicKey ''M'', MarketLoad ''M'',
            FindOpenOrdersAccountsForOwner (Market ''M'' 1) ''w1'',
            PriceNumberToLots (Market ''M'' 1) (Fin 10),
            BaseSizeNumberToLots (Market ''M'' 1) (Fin 2),
            NewBN (BnNumber 7),
            MakePlaceOrderInstruction (Market ''M'' 1)
              \<lparr>a_owner = ''w1'', a_payer = ''w1'', a_side = ''buy'', a_price = 1,
               a_size = 1, a_orderType = ''limit'', a_clientId = Some 7,
               a_openOrdersAddressKey = ''oo1'', a_feeDiscountPubkey = None,
               a_selfTradeBehavior = ''decrementTake''\<rparr>,
            SendTransaction [Instruction ''place''] (Wallet ''w1'') ''confirmed'']"
  have run: "placeLimitOrder (demoEnv [] []) (Some limit1) constructor
     = (Inr (Placed ''tx1'' ''M'' ''buy'' (Fin 10) (Fin 2) ''limit'' (Some 7)),
        \<lparr>marketCache = [''M'' \<mapsto> Market ''M'' 1], history = ?h\<rparr>)"
    by (simp add: placeLimitOrder_def Let_def getMarket_def getMarket_start_def
      getMarket_finish_def try_catch_def bind_def sdk_def
      firstAddress_def truthyId_def constructor_def demoEnv_def limit1_def wallet1_def)
  have down: "placeLimitOrder downEnv (Some limit1) constructor
     = (Inr (Failure ''Failed to load market: timeout''),
        \<lparr>marketCache = Map.empty, history = [NewPublicKey ''M'', MarketLoad ''M'']\<rparr>)"
    by (simp add: placeLimitOrder_def Let_def getMarket_def getMarket_start_def
      getMarket_finish_def try_catch_def bind_def sdk_def
      firstAddress_def truthyId_def constructor_def demoEnv_def downEnv_def limit1_def
      wallet1_def)
  have cancel: "cancelOrder (demoEnv [] []) (Some cancel1) constructor
     = (Inr (Cancelled ''tx1'' ''M'' ''42''),
        \<lparr>marketCache = [''M'' \<mapsto> Market ''M'' 1],
         history =
           [NewPublicKey ''M'', MarketLoad ''M'',
            FindOpenOrdersAccountsForOwner (Market ''M'' 1) ''w1'',
            NewBN (BnString ''42''),
            MakeCancelOrderInstruction (Market ''M'' 1)
              \<lparr>c_owner = ''w1'', c_openOrders = ''oo1'', c_orderId = 42,
               c_side = ''buy''\<rparr>,
            SendTransaction [Instruction ''cancel''] (Wallet ''w1'') ''confirmed'']\<rparr>)"
    by (simp add: cancelOrder_def Let_def getMarket_def getMarket_start_def
      getMarket_finish_def try_catch_def bind_def sdk_def
      firstAddress_def truthyString_def constructor_def demoEnv_def cancel1_def wallet1_def)
  from mutating_operations_return_objects[of "demoEnv [] []" limit1 constructor, THEN conjunct1]
  obtain r s' cs where a: "placeLimitOrder (demoEnv [] []) (Some limit1) constructor = (Inr r, s')"
    and h: "history s' = history constructor @ cs"
    and b: "success r \<longrightarrow>
           (\<exists>t h tx. r = Placed t (p_marketAddress limit1) (p_side limit1) (p_price limit1)
                         (p_size limit1)
                         (case p_orderType limit1 of None \<Rightarrow> ''limit'' | Some ot \<Rightarrow> ot)
                         (truthyId (p_clientId limit1))
                   \<and> sendTransaction (demoEnv [] []) h tx (p_wallet limit1) ''confirmed'' = Inr t)
         \<and> clean (demoEnv [] []) (history constructor) cs"
    by (elim exE conjE)
  from a run have r: "r = Placed ''tx1'' ''M'' ''buy'' (Fin 10) (Fin 2) ''limit'' (Some 7)"
    and s': "s' = \<lparr>marketCache = [''M'' \<mapsto> Market ''M'' 1], history = ?h\<rparr>"
    by simp_all
  from h have cs: "cs = ?h" unfolding s' by (simp add: constructor_def)
  from r have "success r" by simp
  with b have "clean (demoEnv [] []) (history constructor) cs" by (elim impE conjE)
  then have c: "clean (demoEnv [] []) [] ?h" unfolding cs by (simp add: constructor_def)
  from mutating_operations_return_objects[of downEnv limit1 constructor, THEN conjunct1]
  obtain r2 s2 cs2 where a2: "placeLimitOrder downEnv (Some limit1) constructor = (Inr r2, s2)"
    and h2: "history s2 = history constructor @ cs2"
    and b2: "\<not> success r2 \<longrightarrow>
           (\<exists>msg. r2 = Failure msg
                \<and> explains downEnv loadPrefixes [message typeError] (history constructor) cs2 msg)"
    by (elim exE conjE)
  from a2 down have r2: "r2 = Failure ''Failed to load market: timeout''"
    and s2: "s2 = \<lparr>marketCache = Map.empty, history = [NewPublicKey ''M'', MarketLoad ''M'']\<rparr>"
    by simp_all
  from h2 have cs2: "cs2 = [NewPublicKey ''M'', MarketLoad ''M'']"
    unfolding s2 by (simp add: constructor_def)
  from r2 have "\<not> success r2" by simp
  with b2 have "\<exists>msg. r2 = Failure msg
                \<and> explains downEnv loadPrefixes [message typeError] (history constructor) cs2 msg"
    by (elim impE)
  then have d: "explains downEnv loadPrefixes [message typeError] []
        [NewPublicKey ''M'', MarketLoad ''M''] ''Failed to load market: timeout''"
    unfolding r2 cs2 by (simp add: constructor_def)
  have t: "thrown downEnv [NewPublicKey ''M''] (MarketLoad ''M'') = Some ''timeout''"
    by (simp add: downEnv_def demoEnv_def failure_def)
  show ?thesis by (rule conjI[OF run conjI[OF c conjI[OF down conjI[OF d conjI[OF t cancel]]]]])
qed

section \<open>The default self-trade policy\<close>

lemma defaultPolicy_other: "\<not> isPlaceOrder c \<Longrightarrow> defaultPolicy c"
  by (cases c) simp_all

lemma placeLimitOrder_instruction:
  assumes "placeLimitOrder e (Some p) s = (Inr r, s')" and "success r"
  shows "\<exists>h market args instruction.
           history s' = h @ [MakePlaceOrderInstruction market args,
                             SendTransaction [instruction] (p_wallet p) ''confirmed'']
         \<and> makePlaceOrderInstruction e h market args = Inr instruction
         \<and> a_selfTradeBehavior args
             = (case p_selfTradeBehavior p of None \<Rightarrow> ''decrementTake'' | Some b \<Rightarrow> b)"
  using assms unfolding placeLimitOrder_def Let_def option.case
  by (auto dest!: try_fail_success sdk_Inr elim!: bind_InrE)

text \<open>
  C6. A call of \<^verbatim>\<open>placeLimitOrder\<close> that does not specify \<^verbatim>\<open>selfTradeBehavior\<close> builds
  its place-order instruction with the policy \<^verbatim>\<open>decrementTake\<close>: every place-order
  instruction built during the call has that policy, and when the call succeeds the
  transaction it sent consists of the instruction built with it. A call without an
  object of parameters makes no call at all.
\<close>

theorem default_self_trade_policy:
  assumes none: "p_selfTradeBehavior p = None"
    and run: "placeLimitOrder e (Some p) s = (res, s')"
  shows "(\<exists>cs. history s' = history s @ cs \<and> list_all defaultPolicy cs)
       \<and> (\<forall>r. res = Inr r \<and> success r \<longrightarrow>
             (\<exists>h market args instruction.
                history s' = h @ [MakePlaceOrderInstruction market args,
                                  SendTransaction [instruction] (p_wallet p) ''confirmed'']
              \<and> makePlaceOrderInstruction e h market args = Inr instruction
              \<and> a_selfTradeBehavior args = ''decrementTake''))
       \<and> history (snd (placeLimitOrder e None s)) = history s"
proof (intro conjI)
  show "history (snd (placeLimitOrder e None s)) = history s"
    by (simp add: placeLimitOrder_def)
next
  have "keeps defaultPolicy (placeLimitOrder e (Some p))"
    by (rule keeps_placeLimitOrder) (simp_all add: defaultPolicy_other none)
  from keeps_history[OF this, of s] run
  show "\<exists>cs. history s' = history s @ cs \<and> list_all defaultPolicy cs" by simp
next
  show "\<forall>r. res = Inr r \<and> success r \<longrightarrow>
             (\<exists>h market args instruction.
                history s' = h @ [MakePlaceOrderInstruction market args,
                                  SendTransaction [instruction] (p_wallet p) ''confirmed'']
              \<and> makePlaceOrderInstruction e h market args = Inr instruction
              \<and> a_selfTradeBehavior args = ''decrementTake'')"
  proof (intro allI impI, elim conjE)
    fix r assume "res = Inr r" and ok: "success r"
    with run have "placeLimitOrder e (Some p) s = (Inr r, s')" by simp
    from placeLimitOrder_instruction[OF this ok] none
    show "\<exists>h market args instruction.
                history s' = h @ [MakePlaceOrderInstruction market args,
                                  SendTransaction [instruction] (p_wallet p) ''confirmed'']
              \<and> makePlaceOrderInstruction e h market args = Inr instruction
              \<and> a_selfTradeBehavior args = ''decrementTake''" by simp
  qed
qed

theorem default_self_trade_policy_witness:
  "p_selfTradeBehavior limit1 = None
   \<and> placeLimitOrder (demoEnv [] []) (Some limit1) constructor
     = (Inr (Placed ''tx1'' ''M'' ''buy'' (Fin 10) (Fin 2) ''limit'' (Some 7)),
        \<lparr>marketCache = [''M'' \<mapsto> Market ''M'' 1],
         history =
           [NewPublicKey ''M'', MarketLoad ''M'',
            FindOpenOrdersAccountsForOwner (Market ''M'' 1) ''w1'',
            PriceNumberToLots (Market ''M'' 1) (Fin 10),
            BaseSizeNumberToLots (Market ''M'' 1) (Fin 2),
            NewBN (BnNumber 7),
            MakePlaceOrderInstruction (Market ''M'' 1)
              \<lparr>a_owner = ''w1'', a_payer = ''w1'', a_side = ''buy'', a_price = 1,
               a_size = 1, a_orderType = ''limit'', a_clientId = Some 7,
               a_openOrdersAddressKey = ''oo1'', a_feeDiscountPubkey = None,
               a_selfTradeBehavior = ''decrementTake''\<rparr>,
            SendTransaction [Instruction ''place''] (Wallet ''w1'') ''confirmed'']\<rparr>)
   \<and> list_all defaultPolicy
        [NewPublicKey ''M'', MarketLoad ''M'',
         FindOpenOrdersAccountsForOwner (Market ''M'' 1) ''w1'',
         PriceNumberToLots (Market ''M'' 1) (Fin 10),
         BaseSizeNumberToLots (Market ''M'' 1) (Fin 2),
            NewBN (BnNumber 7),
         MakePlaceOrderInstruction (Market ''M'' 1)
           \<lparr>a_owner = ''w1'', a_payer = ''w1'', a_side = ''buy'', a_price = 1,
            a_size = 1, a_orderType = ''limit'', a_clientId = Some 7,
            a_openOrdersAddressKey = ''oo1'', a_feeDiscountPubkey = None,
            a_selfTradeBehavior = ''decrementTake''\<rparr>,
         SendTransaction [Instruction ''place''] (Wallet ''w1'') ''confirmed'']"
proof -
  let ?h = "[NewPublicKey ''M'', MarketLoad ''M'',
            FindOpenOrdersAccountsForOwner (Market ''M'' 1) ''w1'',
            PriceNumberToLots (Market ''M'' 1) (Fin 10),
            BaseSizeNumberToLots (Market ''M'' 1) (Fin 2),
            NewBN (BnNumber 7),
            MakePlaceOrderInstruction (Market ''M'' 1)
              \<lparr>a_owner = ''w1'', a_payer = ''w1'', a_side = ''buy'', a_price = 1,
               a_size = 1, a_orderType = ''limit'', a_clientId = Some 7,
               a_openOrdersAddressKey = ''oo1'', a_feeDiscountPubkey = None,
               a_selfTradeBehavior = ''decrementTake''\<rparr>,
            SendTransaction [Instruction ''place''] (Wallet ''w1'') ''confirmed'']"
  have none: "p_selfTradeBehavior limit1 = None" by (simp add: limit1_def)
  have run: "placeLimitOrder (demoEnv [] []) (Some limit1) constructor
     = (Inr (Placed ''tx1'' ''M'' ''buy'' (Fin 10) (Fin 2) ''limit'' (Some 7)),
        \<lparr>marketCache = [''M'' \<mapsto> Market ''M'' 1], history = ?h\<rparr>)"
    by (simp add: placeLimitOrder_def Let_def getMarket_def getMarket_start_def getMarket_finish_def try_catch_def bind_def sdk_def
      firstAddress_def truthyId_def constructor_def demoEnv_def limit1_def wallet1_def)
  from default_self_trade_policy[OF none run, THEN conjunct1]
  have c: "list_all defaultPolicy ?h" by (simp add: constructor_def)
  show ?thesis by (rule conjI[OF none conjI[OF run c]])
qed

section \<open>Market orders and insufficient liquidity\<close>

lemma estimate_insufficient:
  assumes "\<forall>x\<in>set orders. 0 \<le> sz x" and "exactRemainders orders r"
    and "available orders < r"
  shows "estimateMarketOrderPrice orders (Fin r) sd = Inl insufficientLiquidity"
proof -
  obtain r' where "fst (walk orders (Fin r) (Fin 0)) = Fin r'"
    "(0 < r') = (available orders < r)"
    using walk_remainder[OF assms(1,2)] by blast
  then show ?thesis
    using assms(3) by (auto simp: estimateMarketOrderPrice_def split: prod.splits)
qed

lemma bind_throw: "bind (throw err) f s = (Inl err, s)"
  by (simp add: bind_def)

lemma getOrderBook_cached:
  assumes c: "marketCache s1 a = Some mk" and r: "getOrderBook e a d s1 = (Inr ob, s2)"
  shows "history s2 = history s1 @ [LoadBidsAsks mk]"
  using r getMarket_hit[OF c, of e] unfolding getOrderBook_def Let_def
  by (auto dest!: try_rethrow_Inr sdk_Inr elim!: bind_InrE simp: dateNow_def split: prod.splits)

lemma quiet_calls:
  "keeps (\<lambda>c. \<not> isSendTransaction c \<and> \<not> isPlaceOrder c)
     (bind (getMarket e a) (\<lambda>market. getOrderBook e a d))"
  by (intro keeps_intros; simp)

text \<open>
  C2, as the code has it. A market order whose requested size exceeds the total
  quantity on the opposing side of the book that \<^verbatim>\<open>placeMarketOrder\<close> fetched (levels
  of non-negative size, and a size whose remainders the walk computes without
  rounding) is not placed: \<^verbatim>\<open>estimateMarketOrderPrice\<close> throws, the call returns the
  object with \<^verbatim>\<open>success: false\<close> and the insufficient-liquidity message as its error,
  and the only call made after the market is known is the load of the book: no
  instruction is built and no transaction is sent, so nothing is filled.
\<close>

theorem market_order_insufficient_liquidity:
  assumes gm: "getMarket e (m_marketAddress p) s = (Inr mk, s1)"
    and gb: "getOrderBook e (m_marketAddress p) None s1 = (Inr ob, s2)"
    and nonneg: "\<forall>x\<in>set (opposing (m_side p) ob). 0 \<le> sz x"
    and size: "m_size p = Fin reqSize"
    and exact: "exactRemainders (opposing (m_side p) ob) reqSize"
    and short: "available (opposing (m_side p) ob) < reqSize"
  shows "placeMarketOrder e (Some p) s
           = (Inr (Failure ''Insufficient liquidity to execute market order of this size''), s2)
       \<and> history s2 = history s1 @ [LoadBidsAsks mk]
       \<and> (\<exists>cs. history s2 = history s @ cs
              \<and> list_all (\<lambda>c. \<not> isSendTransaction c \<and> \<not> isPlaceOrder c) cs)"
proof -
  have est: "(if m_side p = ''buy''
              then estimateMarketOrderPrice (asks ob) (m_size p) (m_side p)
              else estimateMarketOrderPrice (bids ob) (m_size p) (m_side p))
             = Inl insufficientLiquidity"
    using estimate_insufficient[OF nonneg exact short, of "m_side p"]
    by (cases "m_side p = ''buy''") (simp_all add: opposing_def size)
  have 1: "placeMarketOrder e (Some p) s
           = (Inr (Failure ''Insufficient liquidity to execute market order of this size''), s2)"
    unfolding placeMarketOrder_def Let_def option.case
    by (simp add: try_catch_def bind_Inr[where m="getMarket e (m_marketAddress p)", OF gm]
        bind_Inr[where m="getOrderBook e (m_marketAddress p) None", OF gb]
        est liftE_def bind_throw
        insufficientLiquidity_def)
  have 2: "history s2 = history s1 @ [LoadBidsAsks mk]"
    by (rule getOrderBook_cached[OF getMarket_Inr[OF gm] gb])
  have "bind (getMarket e (m_marketAddress p)) (\<lambda>market. getOrderBook e (m_marketAddress p) None) s
          = (Inr ob, s2)"
    by (simp add: bind_Inr[where m="getMarket e (m_marketAddress p)", OF gm] gb)
  with keeps_history[OF quiet_calls, of e "m_marketAddress p" None s]
  have 3: "\<exists>cs. history s2 = history s @ cs
              \<and> list_all (\<lambda>c. \<not> isSendTransaction c \<and> \<not> isPlaceOrder c) cs" by simp
  show ?thesis by (rule conjI[OF 1 conjI[OF 2 3]])
qed

text \<open>
  A buy of 10 through \<^verbatim>\<open>placeMarketOrder\<close> (order type left to its default
  \<^verbatim>\<open>'ioc'\<close>) against asks that total 5: the result is the error object, and the history
  ends with the load of the book.
\<close>

theorem market_order_insufficient_liquidity_counterexample:
  "placeMarketOrder (demoEnv [] [(10, 5, ''a1'')]) (Some market1) constructor
     = (Inr (Failure ''Insufficient liquidity to execute market order of this size''),
        \<lparr>marketCache = [''M'' \<mapsto> Market ''M'' 1],
         history = [NewPublicKey ''M'', MarketLoad ''M'', LoadBidsAsks (Market ''M'' 1)]\<rparr>)
   \<and> available (asks (snapshot ''M'' [] [(10, 5, ''a1'')] 0)) = 5
   \<and> m_size market1 = Fin 10 \<and> m_side market1 = ''buy'' \<and> m_orderType market1 = None
   \<and> \<not> success (Failure ''Insufficient liquidity to execute market order of this size'')"
proof -
  have run: "placeMarketOrder (demoEnv [] [(10, 5, ''a1'')]) (Some market1) constructor
     = (Inr (Failure ''Insufficient liquidity to execute market order of this size''),
        \<lparr>marketCache = [''M'' \<mapsto> Market ''M'' 1],
         history = [NewPublicKey ''M'', MarketLoad ''M'', LoadBidsAsks (Market ''M'' 1)]\<rparr>)"
    by (simp add: placeMarketOrder_def placeLimitOrder_def getOrderBook_def Let_def
      getMarket_def getMarket_start_def getMarket_finish_def try_catch_def bind_def sdk_def firstAddress_def truthyId_def
      constructor_def demoEnv_def market1_def wallet1_def dateNow_def getL2_def liftE_def
      snapshot_def bidItems_def askItems_def bestBid_def bestAsk_def
      estimateMarketOrderPrice_def insufficientLiquidity_def double_of_numeral)
  have av: "available (asks (snapshot ''M'' [] [(10, 5, ''a1'')] 0)) = 5"
    by (simp add: snapshot_def Let_def askItems_def available_def)
  have rest: "m_size market1 = Fin 10 \<and> m_side market1 = ''buy'' \<and> m_orderType market1 = None
   \<and> \<not> success (Failure ''Insufficient liquidity to execute market order of this size'')"
    by (simp add: market1_def)
  show ?thesis by (rule conjI[OF run conjI[OF av rest]])
qed

theorem market_order_insufficient_liquidity_witness:
  "getMarket (demoEnv [] [(10, 5, ''a1'')]) (m_marketAddress market1) constructor
     = (Inr (Market ''M'' 1),
        \<lparr>marketCache = [''M'' \<mapsto> Market ''M'' 1],
         history = [NewPublicKey ''M'', MarketLoad ''M'']\<rparr>)
   \<and> getOrderBook (demoEnv [] [(10, 5, ''a1'')]) (m_marketAddress market1) None
        \<lparr>marketCache = [''M'' \<mapsto> Market ''M'' 1],
         history = [NewPublicKey ''M'', MarketLoad ''M'']\<rparr>
     = (Inr (snapshot ''M'' [] [(10, 5, ''a1'')] 0),
        \<lparr>marketCache = [''M'' \<mapsto> Market ''M'' 1],
         history = [NewPublicKey ''M'', MarketLoad ''M'', LoadBidsAsks (Market ''M'' 1)]\<rparr>)
   \<and> m_size market1 = Fin 10
   \<and> exactRemainders (opposing (m_side market1) (snapshot ''M'' [] [(10, 5, ''a1'')] 0)) 10
   \<and> available (opposing (m_side market1) (snapshot ''M'' [] [(10, 5, ''a1'')] 0)) < 10
   \<and> placeMarketOrder (demoEnv [] [(10, 5, ''a1'')]) (Some market1) constructor
     = (Inr (Failure ''Insufficient liquidity to execute market order of this size''),
        \<lparr>marketCache = [''M'' \<mapsto> Market ''M'' 1],
         history = [NewPublicKey ''M'', MarketLoad ''M'', LoadBidsAsks (Market ''M'' 1)]\<rparr>)"
proof -
  have gm: "getMarket (demoEnv [] [(10, 5, ''a1'')]) (m_marketAddress market1) constructor
     = (Inr (Market ''M'' 1),
        \<lparr>marketCache = [''M'' \<mapsto> Market ''M'' 1],
         history = [NewPublicKey ''M'', MarketLoad ''M'']\<rparr>)"
    by (simp add: getMarket_def getMarket_start_def getMarket_finish_def try_catch_def bind_def sdk_def constructor_def demoEnv_def
        market1_def)
  have gb: "getOrderBook (demoEnv [] [(10, 5, ''a1'')]) (m_marketAddress market1) None
        \<lparr>marketCache = [''M'' \<mapsto> Market ''M'' 1],
         history = [NewPublicKey ''M'', MarketLoad ''M'']\<rparr>
     = (Inr (snapshot ''M'' [] [(10, 5, ''a1'')] 0),
        \<lparr>marketCache = [''M'' \<mapsto> Market ''M'' 1],
         history = [NewPublicKey ''M'', MarketLoad ''M'', LoadBidsAsks (Market ''M'' 1)]\<rparr>)"
    by (simp add: getOrderBook_def getMarket_def getMarket_start_def getMarket_finish_def try_catch_def bind_def sdk_def dateNow_def
        demoEnv_def getL2_def market1_def)
  have nonneg: "\<forall>x\<in>set (opposing (m_side market1) (snapshot ''M'' [] [(10, 5, ''a1'')] 0)).
                  0 \<le> sz x"
    by (simp add: opposing_def market1_def snapshot_def Let_def askItems_def)
  have size: "m_size market1 = Fin 10" by (simp add: market1_def)
  have exact: "exactRemainders (opposing (m_side market1) (snapshot ''M'' [] [(10, 5, ''a1'')] 0)) 10"
    by (simp add: opposing_def market1_def snapshot_def Let_def askItems_def isDouble_numeral)
  have short: "available (opposing (m_side market1) (snapshot ''M'' [] [(10, 5, ''a1'')] 0))
                 < 10"
    by (simp add: opposing_def market1_def snapshot_def Let_def askItems_def available_def)
  have run: "placeMarketOrder (demoEnv [] [(10, 5, ''a1'')]) (Some market1) constructor
     = (Inr (Failure ''Insufficient liquidity to execute market order of this size''),
        \<lparr>marketCache = [''M'' \<mapsto> Market ''M'' 1],
         history = [NewPublicKey ''M'', MarketLoad ''M'', LoadBidsAsks (Market ''M'' 1)]\<rparr>)"
    by (rule market_order_insufficient_liquidity[OF gm gb nonneg size exact short,
          THEN conjunct1])
  show ?thesis by (rule conjI[OF gm conjI[OF gb conjI[OF size conjI[OF exact conjI[OF short run]]]]])
qed

end
